theory Spec2Isabelle
  imports Main
begin

section \<open>JavaScript values\<close>

text \<open>
  The values the utility functions receive: the JSON-compatible values and \<^verbatim>\<open>undefined\<close>.
  Strings are lists of characters; the model covers ASCII text (the case mappings below
  leave every other character alone).  Numbers are the integers that a double holds
  exactly and prints in plain decimal (magnitude at most \<open>2\<^sup>5\<^sup>3\<close>); fractions, \<^verbatim>\<open>NaN\<close> and
  the infinities are not values of the model, they occur only as results of the numeric
  conversions below.  An array or object carries the address of the storage that holds
  it: two composite values are the same object exactly when their addresses coincide.
  An object is a plain object; its properties are listed in the order in which the
  engine enumerates them, each key once.
\<close>

type_synonym addr = nat

datatype jsval =
    Undefined
  | Null
  | Bool bool
  | Num int
  | Str string
  | Arr addr "jsval list"
  | Obj addr "(string \<times> jsval) list"

datatype error = TypeError | SyntaxError

section \<open>Characters and built-in conversions\<close>

definition lower_letters :: string where
  "lower_letters = ''abcdefghijklmnopqrstuvwxyz''"

definition upper_letters :: string where
  "upper_letters = ''ABCDEFGHIJKLMNOPQRSTUVWXYZ''"

definition decimal_digits :: string where
  "decimal_digits = ''0123456789''"

definition is_lower :: "char \<Rightarrow> bool" where
  "is_lower c = (c \<in> set lower_letters)"

definition is_upper :: "char \<Rightarrow> bool" where
  "is_upper c = (c \<in> set upper_letters)"

definition is_digit :: "char \<Rightarrow> bool" where
  "is_digit c = (c \<in> set decimal_digits)"

text \<open>The character class \<^verbatim>\<open>[a-zA-Z\d]\<close>.\<close>

definition is_alnum :: "char \<Rightarrow> bool" where
  "is_alnum c = (is_lower c \<or> is_upper c \<or> is_digit c)"

definition toUpperCase_char :: "char \<Rightarrow> char" where
  "toUpperCase_char c =
     (case map_of (zip lower_letters upper_letters) c of Some u \<Rightarrow> u | None \<Rightarrow> c)"

definition toLowerCase_char :: "char \<Rightarrow> char" where
  "toLowerCase_char c =
     (case map_of (zip upper_letters lower_letters) c of Some l \<Rightarrow> l | None \<Rightarrow> c)"

definition toUpperCase :: "string \<Rightarrow> string" where
  "toUpperCase s = map toUpperCase_char s"

definition toLowerCase :: "string \<Rightarrow> string" where
  "toLowerCase s = map toLowerCase_char s"

text \<open>The decimal digits of a natural number, as \<^verbatim>\<open>Number.prototype.toString\<close> prints an
  integer.\<close>

fun digits_of :: "nat \<Rightarrow> string" where
  "digits_of n =
     (if n < 10 then [decimal_digits ! n]
      else digits_of (n div 10) @ [decimal_digits ! (n mod 10)])"

definition number_to_string :: "int \<Rightarrow> string" where
  "number_to_string i = (if i < 0 then ''-'' @ digits_of (nat (- i)) else digits_of (nat i))"

text \<open>
  \<^verbatim>\<open>String(v)\<close>.  A primitive has a fixed text.  An array is converted by
  \<^verbatim>\<open>Array.prototype.join\<close> with a comma, where \<^verbatim>\<open>undefined\<close> and \<^verbatim>\<open>null\<close> elements give
  the empty string.  An object is converted by the method \<^verbatim>\<open>toString\<close>: the inherited one
  answers \<^verbatim>\<open>[object Object]\<close>; an own data property of that name hides it, is not
  callable, and the conversion raises a TypeError.
\<close>

fun ToString :: "jsval \<Rightarrow> error + string"
  and join_with :: "string \<Rightarrow> jsval list \<Rightarrow> error + string"
where
  "ToString Undefined = Inr ''undefined''"
| "ToString Null = Inr ''null''"
| "ToString (Bool b) = Inr (if b then ''true'' else ''false'')"
| "ToString (Num i) = Inr (number_to_string i)"
| "ToString (Str s) = Inr s"
| "ToString (Arr a xs) = join_with '','' xs"
| "ToString (Obj a kvs) =
     (if ''toString'' \<in> fst ` set kvs then Inl TypeError else Inr ''[object Object]'')"
| "join_with sep [] = Inr []"
| "join_with sep (x # xs) =
     (case (if x = Undefined \<or> x = Null then Inr [] else ToString x) of
        Inl e \<Rightarrow> Inl e
      | Inr s \<Rightarrow>
          (if xs = [] then Inr s
           else case join_with sep xs of
                  Inl e \<Rightarrow> Inl e
                | Inr r \<Rightarrow> Inr (s @ sep @ r)))"

text \<open>\<^verbatim>\<open>Array.isArray(v)\<close> and \<^verbatim>\<open>typeof v === 'string'\<close>.\<close>

fun isArray :: "jsval \<Rightarrow> bool" where
  "isArray (Arr a xs) = True"
| "isArray v = False"

fun is_string :: "jsval \<Rightarrow> bool" where
  "is_string (Str s) = True"
| "is_string v = False"

text \<open>
  \<^verbatim>\<open>
  static isObject(obj) {
      return (typeof obj === 'object' && obj === Object(obj) && !Array.isArray(obj));
  }
  \<close>
  \<^verbatim>\<open>typeof null\<close> is \<^verbatim>\<open>'object'\<close> too, but \<^verbatim>\<open>Object(null)\<close> is a new object, so the second
  conjunct excludes \<open>Null\<close>.
\<close>

fun isObject :: "jsval \<Rightarrow> bool" where
  "isObject (Obj a kvs) = True"
| "isObject v = False"

text \<open>The truth value of a value in a condition.\<close>

fun ToBoolean :: "jsval \<Rightarrow> bool" where
  "ToBoolean Undefined = False"
| "ToBoolean Null = False"
| "ToBoolean (Bool b) = b"
| "ToBoolean (Num i) = (i \<noteq> 0)"
| "ToBoolean (Str s) = (s \<noteq> [])"
| "ToBoolean v = True"

section \<open>String normalization\<close>

subsection \<open>normalizeUrl\<close>

text \<open>\<^verbatim>\<open>s.replace(/\/$/, "")\<close>: without the multiline flag \<^verbatim>\<open>$\<close> matches at the end of
  the input only, so at most one slash, the last character, is removed.\<close>

definition replace_trailing_slash :: "string \<Rightarrow> string" where
  "replace_trailing_slash s =
     (if s \<noteq> [] \<and> last s = CHR ''/'' then butlast s else s)"

text \<open>
  \<^verbatim>\<open>
  static normalizeUrl(baseUrl, path = null) {
      let url = baseUrl.replace(/\/$/, "");
      if (typeof path === 'string') {
          if (path.substr(0, 1) !== '/') {
              path = '/' + path;
          }
          url = url + path.replace(/\/$/, "");
      }
      return url;
  }
  \<close>
  Only a string has a method \<^verbatim>\<open>replace\<close>: for every other \<open>baseUrl\<close> the call
  \<^verbatim>\<open>baseUrl.replace\<close> raises a TypeError.  An omitted \<open>path\<close> is \<open>Undefined\<close> and takes
  the default \<open>Null\<close>.
\<close>

definition normalizeUrl :: "jsval \<Rightarrow> jsval \<Rightarrow> error + string" where
  "normalizeUrl baseUrl path0 =
     (let path = (if path0 = Undefined then Null else path0) in
      case baseUrl of
        Str b \<Rightarrow>
          (let url = replace_trailing_slash b in
           case path of
             Str p \<Rightarrow>
               (let p' = (if take 1 p \<noteq> ''/'' then ''/'' @ p else p)
                in Inr (url @ replace_trailing_slash p'))
           | _ \<Rightarrow> Inr url)
      | _ \<Rightarrow> Inl TypeError)"

subsection \<open>replacePlaceholders\<close>

text \<open>\<open>occurs_at pat s j\<close>: the string \<open>pat\<close> occurs in \<open>s\<close> at position \<open>j\<close>.\<close>

definition occurs_at :: "string \<Rightarrow> string \<Rightarrow> nat \<Rightarrow> bool" where
  "occurs_at pat s j = (take (length pat) (drop j s) = pat)"

text \<open>The position of the first occurrence of \<open>pat\<close> in \<open>s\<close>, as \<^verbatim>\<open>s.indexOf(pat)\<close>
  finds it; \<open>None\<close> when there is none.\<close>

fun index_of :: "string \<Rightarrow> string \<Rightarrow> nat option" where
  "index_of pat [] = (if pat = [] then Some 0 else None)"
| "index_of pat (c # s) =
     (if take (length pat) (c # s) = pat then Some 0
      else map_option Suc (index_of pat s))"

text \<open>
  The replacement text of \<^verbatim>\<open>String.prototype.replace\<close> is a template: \<^verbatim>\<open>$$\<close> stands for a
  dollar sign, \<^verbatim>\<open>$&\<close> for the matched text, \<^verbatim>\<open>$`\<close> for the text before the match and
  \<^verbatim>\<open>$'\<close> for the text after it.  A string pattern has no capture groups, so every other
  character, a dollar sign followed by a digit included, stands for itself.
\<close>

fun get_substitution :: "string \<Rightarrow> string \<Rightarrow> string \<Rightarrow> string \<Rightarrow> string" where
  "get_substitution matched preceding following (c # d # t) =
     (if c = CHR ''$'' \<and> d = CHR ''$'' then
        CHR ''$'' # get_substitution matched preceding following t
      else if c = CHR ''$'' \<and> d = CHR ''&'' then
        matched @ get_substitution matched preceding following t
      else if c = CHR ''$'' \<and> d = CHR 0x60 then
        preceding @ get_substitution matched preceding following t
      else if c = CHR ''$'' \<and> d = CHR 0x27 then
        following @ get_substitution matched preceding following t
      else c # get_substitution matched preceding following (d # t))"
| "get_substitution matched preceding following t = t"

text \<open>\<^verbatim>\<open>s.replace(searchString, replaceValue)\<close> with a string pattern: the first
  occurrence only.\<close>

definition string_replace :: "string \<Rightarrow> string \<Rightarrow> string \<Rightarrow> string" where
  "string_replace s searchString replaceValue =
     (case index_of searchString s of
        None \<Rightarrow> s
      | Some pos \<Rightarrow>
          (let preceding = take pos s;
               following = drop (pos + length searchString) s
           in preceding
              @ get_substitution searchString preceding following replaceValue
              @ following))"

text \<open>
  \<^verbatim>\<open>
  static replacePlaceholders(message, variables = {}) {
      if (typeof message === 'string' && Utils.isObject(variables)) {
          for(var placeholder in variables) {
              let vars = variables[placeholder];
              message = message.replace('{' + placeholder + '}',
                                        Array.isArray(vars) ? vars.join("; ") : vars);
          }
      }
      return message;
  }
  \<close>
  \<open>replacement_text\<close> is the second argument of \<^verbatim>\<open>replace\<close> as a string: \<^verbatim>\<open>replace\<close>
  converts a value that is not a function with \<^verbatim>\<open>String\<close>, before it searches.
  \<open>replace_loop\<close> is the \<^verbatim>\<open>for ... in\<close> loop over the properties.
\<close>

definition replacement_text :: "jsval \<Rightarrow> error + string" where
  "replacement_text vars =
     (case vars of Arr a xs \<Rightarrow> join_with ''; '' xs | _ \<Rightarrow> ToString vars)"

fun replace_loop :: "(string \<times> jsval) list \<Rightarrow> string \<Rightarrow> error + string" where
  "replace_loop [] message = Inr message"
| "replace_loop ((placeholder, vars) # rest) message =
     (case replacement_text vars of
        Inl e \<Rightarrow> Inl e
      | Inr text \<Rightarrow>
          replace_loop rest
            (string_replace message (''{'' @ placeholder @ ''}'') text))"

definition replacePlaceholders :: "jsval \<Rightarrow> jsval \<Rightarrow> error + jsval" where
  "replacePlaceholders message variables0 =
     (let variables = (if variables0 = Undefined then Obj 0 [] else variables0) in
      case (message, variables) of
        (Str m, Obj a kvs) \<Rightarrow>
          (case replace_loop kvs m of Inl e \<Rightarrow> Inl e | Inr m' \<Rightarrow> Inr (Str m'))
      | _ \<Rightarrow> Inr message)"

section \<open>Numbers read from strings\<close>

text \<open>
  The result of a numeric conversion: not a number, an infinity with its sign, or the
  finite number \<open>\<plusminus> m \<cdot> 10\<^sup>e\<close> given by sign, digits and decimal exponent.  Only two
  things are asked of such a number below: whether it is finite, and how it compares
  with a small integer.  Rounding to a double does not change the second; for the first,
  a literal of magnitude \<open>2\<^sup>1\<^sup>0\<^sup>2\<^sup>4 - 2\<^sup>9\<^sup>7\<^sup>0\<close> or more rounds to an infinity.  (An engine
  may cut a literal of more than twenty significant digits before it rounds; that can
  matter only for a literal within one part in \<open>10\<^sup>1\<^sup>9\<close> of this bound.)
\<close>

datatype number = NaN | Infinity bool | Finite bool int int

definition overflows :: "int \<Rightarrow> int \<Rightarrow> bool" where
  "overflows m e =
     (if 0 \<le> e then 2 ^ 1024 - 2 ^ 970 \<le> m * 10 ^ nat e
      else (2 ^ 1024 - 2 ^ 970) * 10 ^ nat (- e) \<le> m)"

definition round_number :: "bool \<Rightarrow> int \<Rightarrow> int \<Rightarrow> number" where
  "round_number neg m e = (if overflows m e then Infinity neg else Finite neg m e)"

text \<open>\<open>number_ge x n\<close>: the comparison \<^verbatim>\<open>x >= n\<close> of a number with an integer
  \<open>n \<ge> 0\<close>; false for \<open>NaN\<close>.\<close>

fun number_ge :: "number \<Rightarrow> int \<Rightarrow> bool" where
  "number_ge NaN n = False"
| "number_ge (Infinity neg) n = (\<not> neg)"
| "number_ge (Finite neg m e) n =
     (if neg then m = 0 \<and> n = 0
      else if 0 \<le> e then n \<le> m * 10 ^ nat e
      else n * 10 ^ nat (- e) \<le> m)"

text \<open>White space and line terminators (the ASCII ones).\<close>

definition is_space :: "char \<Rightarrow> bool" where
  "is_space c = (c \<in> {CHR 0x09, CHR 0x0A, CHR 0x0B, CHR 0x0C, CHR 0x0D, CHR 0x20})"

definition trim_start :: "string \<Rightarrow> string" where
  "trim_start s = dropWhile is_space s"

definition trim :: "string \<Rightarrow> string" where
  "trim s = rev (dropWhile is_space (rev (dropWhile is_space s)))"

definition digit_value :: "string \<Rightarrow> char \<Rightarrow> nat option" where
  "digit_value alphabet c = map_of (zip alphabet [0 ..< length alphabet]) c"

text \<open>The value of a numeral in the base given by its alphabet; letters count in both
  cases.\<close>

definition numeral_value :: "string \<Rightarrow> string \<Rightarrow> int" where
  "numeral_value alphabet ds =
     foldl (\<lambda>acc c. int (length alphabet) * acc
                      + (case digit_value alphabet (toLowerCase_char c) of
                           Some d \<Rightarrow> int d | None \<Rightarrow> 0)) 0 ds"

definition take_sign :: "string \<Rightarrow> bool \<times> string" where
  "take_sign s =
     (case s of
        [] \<Rightarrow> (False, [])
      | c # r \<Rightarrow>
          if c = CHR ''+'' then (False, r)
          else if c = CHR ''-'' then (True, r)
          else (False, s))"

text \<open>An exponent part at the start of \<open>s\<close>: \<^verbatim>\<open>e\<close> or \<^verbatim>\<open>E\<close>, an optional sign, and at
  least one digit.\<close>

definition exponent_part :: "string \<Rightarrow> (int \<times> string) option" where
  "exponent_part s =
     (case s of
        [] \<Rightarrow> None
      | c # r \<Rightarrow>
          if c = CHR ''e'' \<or> c = CHR ''E'' then
            (let (neg, r1) = take_sign r;
                 ds = takeWhile is_digit r1;
                 x = numeral_value decimal_digits ds
             in if ds = [] then None
                else Some (if neg then - x else x, dropWhile is_digit r1))
          else None)"

text \<open>
  The longest prefix of \<open>s\<close> that is an unsigned decimal literal
  (\<^verbatim>\<open>Infinity\<close>, \<^verbatim>\<open>12\<close>, \<^verbatim>\<open>12.\<close>, \<^verbatim>\<open>12.5\<close>, \<^verbatim>\<open>.5\<close>, each of the numeric ones with an
  optional exponent part), with its value and the rest of the string.
\<close>

definition unsigned_decimal :: "bool \<Rightarrow> string \<Rightarrow> (number \<times> string) option" where
  "unsigned_decimal neg s =
     (if take 8 s = ''Infinity'' then Some (Infinity neg, drop 8 s)
      else
        (let ip = takeWhile is_digit s;
             r1 = dropWhile is_digit s;
             (fp, r2) =
               (case r1 of
                  [] \<Rightarrow> ([], r1)
                | c # r \<Rightarrow>
                    if c = CHR ''.'' then (takeWhile is_digit r, dropWhile is_digit r)
                    else ([], r1))
         in if ip = [] \<and> fp = [] then None
            else
              (let (x, r3) = (case exponent_part r2 of Some xr \<Rightarrow> xr | None \<Rightarrow> (0, r2))
               in Some (round_number neg (numeral_value decimal_digits (ip @ fp))
                          (x - int (length fp)), r3))))"

definition decimal_literal_prefix :: "string \<Rightarrow> (number \<times> string) option" where
  "decimal_literal_prefix s = (let (neg, r) = take_sign s in unsigned_decimal neg r)"

text \<open>The literals \<^verbatim>\<open>0x1F\<close>, \<^verbatim>\<open>0o17\<close> and \<^verbatim>\<open>0b101\<close>, the prefix letter in either case.\<close>

definition non_decimal_literal :: "string \<Rightarrow> int option" where
  "non_decimal_literal s =
     (case s of
        z # x # ds \<Rightarrow>
          if z = CHR ''0'' \<and> ds \<noteq> [] then
            (let alphabet =
                   (if toLowerCase_char x = CHR ''x'' then ''0123456789abcdef''
                    else if toLowerCase_char x = CHR ''o'' then ''01234567''
                    else if toLowerCase_char x = CHR ''b'' then ''01''
                    else [])
             in if alphabet \<noteq> []
                   \<and> list_all (\<lambda>c. digit_value alphabet (toLowerCase_char c) \<noteq> None) ds
                then Some (numeral_value alphabet ds)
                else None)
          else None
      | _ \<Rightarrow> None)"

text \<open>\<^verbatim>\<open>Number(s)\<close> for a string: white space around the literal is ignored, the empty
  string is zero, and the whole rest must be one literal.\<close>

definition StringToNumber :: "string \<Rightarrow> number" where
  "StringToNumber s =
     (let t = trim s in
      if t = [] then Finite False 0 0
      else case non_decimal_literal t of
             Some n \<Rightarrow> round_number False n 0
           | None \<Rightarrow>
               (case decimal_literal_prefix t of
                  Some (x, []) \<Rightarrow> x
                | _ \<Rightarrow> NaN))"

text \<open>\<^verbatim>\<open>Number(v)\<close>: an array or object is converted to a string first.\<close>

definition ToNumber :: "jsval \<Rightarrow> error + number" where
  "ToNumber v =
     (case v of
        Undefined \<Rightarrow> Inr NaN
      | Null \<Rightarrow> Inr (Finite False 0 0)
      | Bool b \<Rightarrow> Inr (Finite False (if b then 1 else 0) 0)
      | Num i \<Rightarrow> Inr (Finite (i < 0) \<bar>i\<bar> 0)
      | Str s \<Rightarrow> Inr (StringToNumber s)
      | _ \<Rightarrow> (case ToString v of Inl e \<Rightarrow> Inl e | Inr s \<Rightarrow> Inr (StringToNumber s)))"

text \<open>\<^verbatim>\<open>parseFloat(v)\<close>: the argument as a string, leading white space dropped, and the
  longest prefix that is a decimal literal; \<open>NaN\<close> when there is none.\<close>

definition parseFloat :: "jsval \<Rightarrow> error + number" where
  "parseFloat v =
     (case ToString v of
        Inl e \<Rightarrow> Inl e
      | Inr s \<Rightarrow>
          Inr (case decimal_literal_prefix (trim_start s) of
                 Some (x, r) \<Rightarrow> x
               | None \<Rightarrow> NaN))"

definition isNaN :: "number \<Rightarrow> bool" where
  "isNaN x = (x = NaN)"

definition isFinite :: "jsval \<Rightarrow> error + bool" where
  "isFinite v =
     (case ToNumber v of
        Inl e \<Rightarrow> Inl e
      | Inr x \<Rightarrow> Inr (case x of Finite neg m e \<Rightarrow> True | _ \<Rightarrow> False))"

text \<open>\<^verbatim>\<open>v >= n\<close> for an integer \<open>n \<ge> 0\<close>: the left side is converted to a number.\<close>

definition js_ge :: "jsval \<Rightarrow> int \<Rightarrow> error + bool" where
  "js_ge v n = (case ToNumber v of Inl e \<Rightarrow> Inl e | Inr x \<Rightarrow> Inr (number_ge x n))"

section \<open>Classification\<close>

text \<open>
  \<^verbatim>\<open>
  static isNumeric(n) {
      return !isNaN(parseFloat(n)) && isFinite(n);
  }
  \<close>
\<close>

definition isNumeric :: "jsval \<Rightarrow> error + bool" where
  "isNumeric n =
     (case parseFloat n of
        Inl e \<Rightarrow> Inl e
      | Inr x \<Rightarrow> if \<not> isNaN x then isFinite n else Inr False)"

section \<open>prettifyString\<close>

text \<open>
  A global replacement with a pattern of fixed length scans the string from the left:
  where the pattern matches, the match is replaced and the scan goes on behind it;
  elsewhere one character is copied.  \<open>replace_separated sep f\<close> is
  \<^verbatim>\<open>str.replace(/([a-zA-Z\d])SEP([a-zA-Z\d])/g, f)\<close> for the separator \<open>sep\<close>, and
  \<open>replace_camel f\<close> is \<^verbatim>\<open>str.replace(/([a-z])([A-Z])/g, f)\<close>; \<open>f\<close> receives the two
  groups.
\<close>

fun replace_separated :: "char \<Rightarrow> (char \<Rightarrow> char \<Rightarrow> string) \<Rightarrow> string \<Rightarrow> string" where
  "replace_separated sep f (a # s # b # rest) =
     (if is_alnum a \<and> s = sep \<and> is_alnum b then f a b @ replace_separated sep f rest
      else a # replace_separated sep f (s # b # rest))"
| "replace_separated sep f str = str"

fun replace_camel :: "(char \<Rightarrow> char \<Rightarrow> string) \<Rightarrow> string \<Rightarrow> string" where
  "replace_camel f (a # b # rest) =
     (if is_lower a \<and> is_upper b then f a b @ replace_camel f rest
      else a # replace_camel f (b # rest))"
| "replace_camel f str = str"

text \<open>The replacement of the canonical variant,
  \<^verbatim>\<open>const replacer = (_,a,b) => a + ' ' + b.toUpperCase();\<close>
  and the replacement string \<^verbatim>\<open>'$1 $2'\<close> of the single-token variant.\<close>

definition replacer :: "char \<Rightarrow> char \<Rightarrow> string" where
  "replacer a b = [a] @ '' '' @ toUpperCase [b]"

definition dollar1_space_dollar2 :: "char \<Rightarrow> char \<Rightarrow> string" where
  "dollar1_space_dollar2 a b = [a] @ '' '' @ [b]"

text \<open>\<^verbatim>\<open>str.length\<close>: a string and an array have a length, an object has the property
  of that name if it has one, a number or boolean has none, and reading a property of
  \<^verbatim>\<open>undefined\<close> or \<^verbatim>\<open>null\<close> raises a TypeError.\<close>

fun get_length :: "jsval \<Rightarrow> error + jsval" where
  "get_length Undefined = Inl TypeError"
| "get_length Null = Inl TypeError"
| "get_length (Str s) = Inr (Num (int (length s)))"
| "get_length (Arr a xs) = Inr (Num (int (length xs)))"
| "get_length (Obj a kvs) =
     Inr (case map_of kvs ''length'' of Some l \<Rightarrow> l | None \<Rightarrow> Undefined)"
| "get_length v = Inr Undefined"

text \<open>
  The canonical variant (\<^verbatim>\<open>src/utils.js\<close>):
  \<^verbatim>\<open>
  static prettifyString(strings, arraySep = '; ') {
      if (!Array.isArray(strings)) {
          strings = [String(strings)];
      }
      strings = strings.map(str => {
          if (str.length >= 3) {
              const replacer = (_,a,b) => a + ' ' + b.toUpperCase();
              if (str.includes('_')) {
                  str = str.replace(/([a-zA-Z\d])_([a-zA-Z\d])/g, replacer);
              }
              else if (str.includes('-')) {
                  str = str.replace(/([a-zA-Z\d])-([a-zA-Z\d])/g, replacer);
              }
              else {
                  str = str.replace(/([a-z])([A-Z])/g, replacer);
              }
              return str.charAt(0).toUpperCase() + str.substr(1);
          }
          return str;
      });
      return strings.join(arraySep);
  }
  \<close>
  \<open>convert_case f\<close> is the choice between the three conversions followed by the
  upper-casing of the first character, for a string; \<open>prettify_token\<close> is the function
  mapped over the array.  An element that is not a string and has a length of three or
  more has no method \<^verbatim>\<open>replace\<close> (an object has no \<^verbatim>\<open>includes\<close> either): a TypeError.
\<close>

definition convert_case :: "(char \<Rightarrow> char \<Rightarrow> string) \<Rightarrow> string \<Rightarrow> string" where
  "convert_case f str0 =
     (let str =
        (if CHR ''_'' \<in> set str0 then replace_separated (CHR ''_'') f str0
         else if CHR ''-'' \<in> set str0 then replace_separated (CHR ''-'') f str0
         else replace_camel f str0)
      in toUpperCase (take 1 str) @ drop 1 str)"

definition prettify_token :: "jsval \<Rightarrow> error + jsval" where
  "prettify_token str =
     (case get_length str of
        Inl e \<Rightarrow> Inl e
      | Inr len \<Rightarrow>
          (case js_ge len 3 of
             Inl e \<Rightarrow> Inl e
           | Inr True \<Rightarrow>
               (case str of
                  Str s \<Rightarrow> Inr (Str (convert_case replacer s))
                | _ \<Rightarrow> Inl TypeError)
           | Inr False \<Rightarrow> Inr str))"

fun map_tokens :: "jsval list \<Rightarrow> error + jsval list" where
  "map_tokens [] = Inr []"
| "map_tokens (x # xs) =
     (case prettify_token x of
        Inl e \<Rightarrow> Inl e
      | Inr y \<Rightarrow> (case map_tokens xs of Inl e \<Rightarrow> Inl e | Inr ys \<Rightarrow> Inr (y # ys)))"

definition prettifyString :: "jsval \<Rightarrow> jsval \<Rightarrow> error + string" where
  "prettifyString strings0 arraySep0 =
     (let arraySep = (if arraySep0 = Undefined then Str ''; '' else arraySep0) in
      case (case strings0 of
              Arr a xs \<Rightarrow> Inr xs
            | _ \<Rightarrow> (case ToString strings0 of Inl e \<Rightarrow> Inl e | Inr s \<Rightarrow> Inr [Str s])) of
        Inl e \<Rightarrow> Inl e
      | Inr strings \<Rightarrow>
          (case map_tokens strings of
             Inl e \<Rightarrow> Inl e
           | Inr strings' \<Rightarrow>
               (case ToString arraySep of
                  Inl e \<Rightarrow> Inl e
                | Inr sep \<Rightarrow> join_with sep strings')))"

text \<open>
  The single-token variant (the second \<^verbatim>\<open>utils.js\<close> of the repository):
  \<^verbatim>\<open>
  static prettifyString(str) {
      if(Utils.isNumeric(str)) {
          return str;
      }
      else if (str.length >= 2) {
          if (str.includes('_')) {
              str = str.replace(/([a-zA-Z\d])_([a-zA-Z\d])/g, '$1 $2');
          }
          else if (str.includes('-')) {
              str = str.replace(/([a-zA-Z\d])-([a-zA-Z\d])/g, '$1 $2');
          }
          else {
              str = str.replace(/([a-z])([A-Z])/g, '$1 $2');
          }
          return str.charAt(0).toUpperCase() + str.substr(1);
      }
      else {
          return String(str);
      }
  }
  \<close>
\<close>

definition prettifyString_single :: "jsval \<Rightarrow> error + jsval" where
  "prettifyString_single str =
     (case isNumeric str of
        Inl e \<Rightarrow> Inl e
      | Inr True \<Rightarrow> Inr str
      | Inr False \<Rightarrow>
          (case get_length str of
             Inl e \<Rightarrow> Inl e
           | Inr len \<Rightarrow>
               (case js_ge len 2 of
                  Inl e \<Rightarrow> Inl e
                | Inr True \<Rightarrow>
                    (case str of
                       Str s \<Rightarrow> Inr (Str (convert_case dollar1_space_dollar2 s))
                     | _ \<Rightarrow> Inl TypeError)
                | Inr False \<Rightarrow>
                    (case ToString str of Inl e \<Rightarrow> Inl e | Inr s \<Rightarrow> Inr (Str s)))))"

section \<open>Comparison and collections\<close>

text \<open>
  Modelled from the spec: \<^verbatim>\<open>Utils.equals(x, y)\<close> returns \<^verbatim>\<open>equal(x, y)\<close>, where \<^verbatim>\<open>equal\<close> is
  the function of the package \<^verbatim>\<open>fast-deep-equal\<close>, which is not part of the sources.  The
  specification describes it: two values are equal iff they have identical scalar types
  and values, or are arrays of equal size with pairwise-equal entries in order, or are
  objects of equal size where each key of the first has an equal entry in the second;
  reference identity plays no role.
\<close>

fun equals :: "jsval \<Rightarrow> jsval \<Rightarrow> bool"
  and equals_list :: "jsval list \<Rightarrow> jsval list \<Rightarrow> bool"
  and equals_props :: "(string \<times> jsval) list \<Rightarrow> (string \<times> jsval) list \<Rightarrow> bool"
where
  "equals (Arr a xs) y = (case y of Arr b ys \<Rightarrow> equals_list xs ys | _ \<Rightarrow> False)"
| "equals (Obj a kvs) y =
     (case y of
        Obj b kws \<Rightarrow> length kvs = length kws \<and> equals_props kvs kws
      | _ \<Rightarrow> False)"
| "equals Undefined y = (y = Undefined)"
| "equals Null y = (y = Null)"
| "equals (Bool p) y = (y = Bool p)"
| "equals (Num i) y = (y = Num i)"
| "equals (Str s) y = (y = Str s)"
| "equals_list [] ys = (ys = [])"
| "equals_list (x # xs) ys =
     (case ys of [] \<Rightarrow> False | y # ys' \<Rightarrow> equals x y \<and> equals_list xs ys')"
| "equals_props [] kws = True"
| "equals_props ((k, v) # kvs) kws =
     ((case map_of kws k of None \<Rightarrow> False | Some w \<Rightarrow> equals v w) \<and> equals_props kvs kws)"

text \<open>
  \<^verbatim>\<open>
  static size(obj) {
      if (typeof obj === 'object' && obj !== null) {
          if (Array.isArray(obj)) {
              return obj.length;
          }
          else {
              return Object.keys(obj).length;
          }
      }
      return 0;
  }
  \<close>
\<close>

fun size_js :: "jsval \<Rightarrow> nat" where
  "size_js (Arr a xs) = length xs"
| "size_js (Obj a kvs) = length kvs"
| "size_js v = 0"

text \<open>The equality of a \<^verbatim>\<open>Set\<close> and of \<^verbatim>\<open>Array.prototype.includes\<close>: primitives by
  value, arrays and objects by identity.\<close>

fun same_value_zero :: "jsval \<Rightarrow> jsval \<Rightarrow> bool" where
  "same_value_zero (Arr a xs) y = (case y of Arr b ys \<Rightarrow> a = b | _ \<Rightarrow> False)"
| "same_value_zero (Obj a kvs) y = (case y of Obj b kws \<Rightarrow> a = b | _ \<Rightarrow> False)"
| "same_value_zero x y = (x = y)"

text \<open>\<^verbatim>\<open>new Set(iterable)\<close> adds the elements in order; an element that is already in the
  set is skipped.  The set is the list of its elements in insertion order, which is what
  spreading it into an array gives.\<close>

definition set_add :: "jsval list \<Rightarrow> jsval \<Rightarrow> jsval list" where
  "set_add S x = (if list_ex (\<lambda>y. same_value_zero y x) S then S else S @ [x])"

definition new_Set :: "jsval list \<Rightarrow> jsval list" where
  "new_Set xs = foldl set_add [] xs"

text \<open>\<^verbatim>\<open>arr.findIndex(p)\<close>: the first position whose element satisfies \<open>p\<close>, or \<open>-1\<close>.\<close>

fun findIndex :: "(jsval \<Rightarrow> bool) \<Rightarrow> jsval list \<Rightarrow> int" where
  "findIndex p [] = - 1"
| "findIndex p (x # xs) =
     (if p x then 0 else (let i = findIndex p xs in if i = - 1 then - 1 else i + 1))"

text \<open>\<^verbatim>\<open>arr.filter((s1, pos, arr) => f(s1, pos))\<close>.\<close>

definition filter_pos :: "(jsval \<Rightarrow> nat \<Rightarrow> bool) \<Rightarrow> jsval list \<Rightarrow> jsval list" where
  "filter_pos f arr = map fst (filter (\<lambda>(s1, pos). f s1 pos) (zip arr [0 ..< length arr]))"

text \<open>
  \<^verbatim>\<open>
  static unique(array, useEquals = false) {
      if (useEquals) {
          return array.filter((s1, pos, arr) =>
              arr.findIndex(s2 => Utils.equals(s1, s2)) === pos);
      }
      else {
          return [...new Set(array)];
      }
  }
  \<close>
  Only an array has a method \<^verbatim>\<open>filter\<close>.  A \<^verbatim>\<open>Set\<close> is built from an array, from a
  string (its characters), and from \<^verbatim>\<open>undefined\<close> or \<^verbatim>\<open>null\<close> (empty); a number, a
  boolean and an object are not iterable.  The result is a new array, given as the list
  of its elements.
\<close>

definition unique :: "jsval \<Rightarrow> jsval \<Rightarrow> error + jsval list" where
  "unique array useEquals =
     (if ToBoolean useEquals then
        (case array of
           Arr a arr \<Rightarrow>
             Inr (filter_pos (\<lambda>s1 pos. findIndex (\<lambda>s2. equals s1 s2) arr = int pos) arr)
         | _ \<Rightarrow> Inl TypeError)
      else
        (case array of
           Arr a arr \<Rightarrow> Inr (new_Set arr)
         | Str s \<Rightarrow> Inr (new_Set (map (\<lambda>c. Str [c]) s))
         | Undefined \<Rightarrow> Inr (new_Set [])
         | Null \<Rightarrow> Inr (new_Set [])
         | _ \<Rightarrow> Inl TypeError))"

section \<open>Link lists\<close>

text \<open>
  \<^verbatim>\<open>
  static compareStringCaseInsensitive(a, b) {
      if (typeof a !== 'string') {
          a = String(a);
      }
      if (typeof b !== 'string') {
          b = String(b);
      }
      return a.localeCompare(b, undefined, {numeric: true, sensitivity: 'base'});
  }
  \<close>
  The collation of \<^verbatim>\<open>localeCompare\<close> belongs to the engine and its locale data; it is a
  parameter here.
\<close>

definition compareStringCaseInsensitive ::
  "(string \<Rightarrow> string \<Rightarrow> int) \<Rightarrow> jsval \<Rightarrow> jsval \<Rightarrow> error + int" where
  "compareStringCaseInsensitive localeCompare a0 b0 =
     (case (case a0 of Str s \<Rightarrow> Inr s | _ \<Rightarrow> ToString a0) of
        Inl e \<Rightarrow> Inl e
      | Inr a \<Rightarrow>
          (case (case b0 of Str s \<Rightarrow> Inr s | _ \<Rightarrow> ToString b0) of
             Inl e \<Rightarrow> Inl e
           | Inr b \<Rightarrow> Inr (localeCompare a b)))"

text \<open>A link is an object; inside \<open>friendlyLinks\<close> it is the list of its properties.
  \<open>get_prop\<close> reads a property (\<^verbatim>\<open>undefined\<close> when there is none), \<open>set_prop\<close> assigns
  one: an existing property keeps its place, a new one goes to the end.\<close>

type_synonym props = "(string \<times> jsval) list"

definition get_prop :: "props \<Rightarrow> string \<Rightarrow> jsval" where
  "get_prop kvs k = (case map_of kvs k of Some v \<Rightarrow> v | None \<Rightarrow> Undefined)"

definition set_prop :: "props \<Rightarrow> string \<Rightarrow> jsval \<Rightarrow> props" where
  "set_prop kvs k v =
     (if map_of kvs k = None then kvs @ [(k, v)]
      else map (\<lambda>(k', v'). if k' = k then (k', v) else (k', v')) kvs)"

text \<open>\<^verbatim>\<open>Object.assign({}, link)\<close>: the own enumerable properties of the source.  An
  array and a string have their indices as properties; \<^verbatim>\<open>undefined\<close>, \<^verbatim>\<open>null\<close>, numbers
  and booleans have none.  (A property named \<^verbatim>\<open>__proto__\<close>, which the assignment would
  hand to the prototype setter, is outside the model.)\<close>

definition object_assign_empty :: "jsval \<Rightarrow> props" where
  "object_assign_empty source =
     (case source of
        Obj a kvs \<Rightarrow> kvs
      | Arr a xs \<Rightarrow> zip (map digits_of [0 ..< length xs]) xs
      | Str s \<Rightarrow> zip (map digits_of [0 ..< length s]) (map (\<lambda>c. Str [c]) s)
      | _ \<Rightarrow> [])"

text \<open>\<^verbatim>\<open>ignoreRel.includes(s)\<close> for a string \<open>s\<close>: an array has the element, a string has
  the substring; nothing else has a method \<^verbatim>\<open>includes\<close>.\<close>

definition includes_js :: "jsval \<Rightarrow> string \<Rightarrow> error + bool" where
  "includes_js xs s =
     (case xs of
        Arr a es \<Rightarrow> Inr (list_ex (\<lambda>e. same_value_zero e (Str s)) es)
      | Str t \<Rightarrow> Inr (index_of s t \<noteq> None)
      | _ \<Rightarrow> Inl TypeError)"

definition is_line_terminator :: "char \<Rightarrow> bool" where
  "is_line_terminator c = (c = CHR 0x0A \<or> c = CHR 0x0D)"

text \<open>\<^verbatim>\<open>s.replace(/^https?:\/\/(www.)?/i, '')\<close>: at the start of the string, \<^verbatim>\<open>http\<close>, an
  optional \<^verbatim>\<open>s\<close>, \<^verbatim>\<open>://\<close>, and optionally \<^verbatim>\<open>www\<close> with one more character that is not a
  line terminator (the dot of the pattern is not escaped); letters in either case.\<close>

definition strip_scheme :: "string \<Rightarrow> string" where
  "strip_scheme s =
     (if toLowerCase (take 4 s) = ''http'' then
        (let r1 = drop 4 s;
             r2 = (if toLowerCase (take 1 r1) = ''s'' then drop 1 r1 else r1)
         in if take 3 r2 = ''://'' then
              (let r3 = drop 3 r2
               in if toLowerCase (take 3 r3) = ''www'' \<and> 3 < length r3
                     \<and> \<not> is_line_terminator (r3 ! 3)
                  then drop 4 r3 else r3)
            else s)
      else s)"

text \<open>\<^verbatim>\<open>link.href.replace(/^https?:\/\/(www.)?/i, '').replace(/\/$/i, '')\<close>; only a string
  has a method \<^verbatim>\<open>replace\<close>.\<close>

definition title_from_href :: "props \<Rightarrow> error + string" where
  "title_from_href link =
     (case get_prop link ''href'' of
        Str href \<Rightarrow> Inr (replace_trailing_slash (strip_scheme href))
      | _ \<Rightarrow> Inl TypeError)"

text \<open>
  \<^verbatim>\<open>
  static friendlyLinks(linkList, sort = true, ignoreRel = ['self']) {
      let links = [];
      if (!Array.isArray(linkList)) {
          return links;
      }
      for(let link of linkList) {
          link = Object.assign({}, link);
          if (typeof link.rel === 'string' && ignoreRel.includes(link.rel.toLowerCase())) {
              continue;
          }
          if (typeof link.title !== 'string' || link.title.length === 0) {
              if (typeof link.rel === 'string' && link.rel.length > 1) {
                  link.title = Utils.prettifyString(link.rel);
              }
              else {
                  link.title = link.href.replace(/^https?:\/\/(www.)?/i, '').replace(/\/$/i, '');
              }
          }
          links.push(link);
      }
      if (sort) {
          links.sort((a, b) => Utils.compareStringCaseInsensitive(a.title, b.title));
      }
      return links;
  }
  \<close>
  \<open>friendly_link\<close> is the body of the loop for one link: \<open>None\<close> when the link is
  skipped, otherwise the copy that is pushed.  \<open>friendly_loop\<close> is the loop, with the
  array \<open>links\<close> built so far.  The result is a new array of new objects, given as the
  list of their property lists.
\<close>

definition friendly_link :: "jsval \<Rightarrow> jsval \<Rightarrow> error + props option" where
  "friendly_link ignoreRel link0 =
     (let link = object_assign_empty link0 in
      case (case get_prop link ''rel'' of
              Str rel \<Rightarrow> includes_js ignoreRel (toLowerCase rel)
            | _ \<Rightarrow> Inr False) of
        Inl e \<Rightarrow> Inl e
      | Inr True \<Rightarrow> Inr None
      | Inr False \<Rightarrow>
          (if (case get_prop link ''title'' of Str t \<Rightarrow> length t = 0 | _ \<Rightarrow> True) then
             (case (case get_prop link ''rel'' of
                      Str rel \<Rightarrow>
                        if length rel > 1 then prettifyString (Str rel) Undefined
                        else title_from_href link
                    | _ \<Rightarrow> title_from_href link) of
                Inl e \<Rightarrow> Inl e
              | Inr title \<Rightarrow> Inr (Some (set_prop link ''title'' (Str title))))
           else Inr (Some link)))"

fun friendly_loop :: "jsval \<Rightarrow> jsval list \<Rightarrow> props list \<Rightarrow> error + props list" where
  "friendly_loop ignoreRel [] links = Inr links"
| "friendly_loop ignoreRel (link # rest) links =
     (case friendly_link ignoreRel link of
        Inl e \<Rightarrow> Inl e
      | Inr None \<Rightarrow> friendly_loop ignoreRel rest links
      | Inr (Some l) \<Rightarrow> friendly_loop ignoreRel rest (links @ [l]))"

text \<open>\<^verbatim>\<open>links.sort(compare)\<close> is a stable sort.  It is computed here by insertion from the
  right: an element goes in front of the first element that it does not come after, so
  elements that compare as equal keep their order.  (Which pairs the engine compares,
  and the order it produces when the comparison is not a consistent ordering, are left
  to the engine.)  Every link that reaches the sort has a string as its title.\<close>

fun insert_link :: "(string \<Rightarrow> string \<Rightarrow> int) \<Rightarrow> props \<Rightarrow> props list \<Rightarrow> error + props list" where
  "insert_link localeCompare a [] = Inr [a]"
| "insert_link localeCompare a (b # bs) =
     (case compareStringCaseInsensitive localeCompare (get_prop a ''title'') (get_prop b ''title'') of
        Inl e \<Rightarrow> Inl e
      | Inr n \<Rightarrow>
          if n \<le> 0 then Inr (a # b # bs)
          else (case insert_link localeCompare a bs of
                  Inl e \<Rightarrow> Inl e
                | Inr cs \<Rightarrow> Inr (b # cs)))"

fun sort_links :: "(string \<Rightarrow> string \<Rightarrow> int) \<Rightarrow> props list \<Rightarrow> error + props list" where
  "sort_links localeCompare [] = Inr []"
| "sort_links localeCompare (a # as) =
     (case sort_links localeCompare as of
        Inl e \<Rightarrow> Inl e
      | Inr bs \<Rightarrow> insert_link localeCompare a bs)"

definition friendlyLinks ::
  "(string \<Rightarrow> string \<Rightarrow> int) \<Rightarrow> jsval \<Rightarrow> jsval \<Rightarrow> jsval \<Rightarrow> error + props list" where
  "friendlyLinks localeCompare linkList sort0 ignoreRel0 =
     (let sort = (if sort0 = Undefined then Bool True else sort0);
          ignoreRel = (if ignoreRel0 = Undefined then Arr 0 [Str ''self''] else ignoreRel0)
      in if \<not> isArray linkList then Inr []
         else
           (case linkList of
              Arr a ls \<Rightarrow>
                (case friendly_loop ignoreRel ls [] of
                   Inl e \<Rightarrow> Inl e
                 | Inr links \<Rightarrow>
                     if ToBoolean sort then sort_links localeCompare links else Inr links)
            | _ \<Rightarrow> Inr []))"

section \<open>deepClone\<close>

text \<open>
  A JSON text, given by its syntax tree.  \<^verbatim>\<open>JSON.stringify\<close> writes a value as a text:
  \<^verbatim>\<open>undefined\<close> has none; inside an array it is written as \<^verbatim>\<open>null\<close>, and a property
  whose value is \<^verbatim>\<open>undefined\<close> is left out.  The addresses of arrays and objects do not
  appear in the text.  (A value that contains itself has no text either, and no
  representation as a \<open>jsval\<close>.)
\<close>

datatype json =
    JNull
  | JBool bool
  | JNum int
  | JStr string
  | JArr "json list"
  | JObj "(string \<times> json) list"

fun JSON_stringify :: "jsval \<Rightarrow> json option"
  and stringify_elements :: "jsval list \<Rightarrow> json list"
  and stringify_properties :: "(string \<times> jsval) list \<Rightarrow> (string \<times> json) list"
where
  "JSON_stringify Undefined = None"
| "JSON_stringify Null = Some JNull"
| "JSON_stringify (Bool b) = Some (JBool b)"
| "JSON_stringify (Num i) = Some (JNum i)"
| "JSON_stringify (Str s) = Some (JStr s)"
| "JSON_stringify (Arr a xs) = Some (JArr (stringify_elements xs))"
| "JSON_stringify (Obj a kvs) = Some (JObj (stringify_properties kvs))"
| "stringify_elements [] = []"
| "stringify_elements (x # xs) =
     (case JSON_stringify x of None \<Rightarrow> JNull | Some j \<Rightarrow> j) # stringify_elements xs"
| "stringify_properties [] = []"
| "stringify_properties ((k, v) # kvs) =
     (case JSON_stringify v of
        None \<Rightarrow> stringify_properties kvs
      | Some j \<Rightarrow> (k, j) # stringify_properties kvs)"

text \<open>
  \<^verbatim>\<open>JSON.parse\<close> builds a value from a text.  Every array and object of the text is
  created anew: it gets the next free address, and the counter of free addresses is
  returned with the value.  The members of an object are defined in the order of the
  text, a repeated key overwriting the earlier value.  The argument \<^verbatim>\<open>undefined\<close> is read
  as the text \<^verbatim>\<open>undefined\<close>, which is a syntax error.
\<close>

fun parse_value :: "addr \<Rightarrow> json \<Rightarrow> jsval \<times> addr"
  and parse_elements :: "addr \<Rightarrow> json list \<Rightarrow> jsval list \<times> addr"
  and parse_members :: "addr \<Rightarrow> props \<Rightarrow> (string \<times> json) list \<Rightarrow> props \<times> addr"
where
  "parse_value n JNull = (Null, n)"
| "parse_value n (JBool b) = (Bool b, n)"
| "parse_value n (JNum i) = (Num i, n)"
| "parse_value n (JStr s) = (Str s, n)"
| "parse_value n (JArr js) = (let (xs, n') = parse_elements (Suc n) js in (Arr n xs, n'))"
| "parse_value n (JObj ms) = (let (kvs, n') = parse_members (Suc n) [] ms in (Obj n kvs, n'))"
| "parse_elements n [] = ([], n)"
| "parse_elements n (j # js) =
     (let (x, n') = parse_value n j; (xs, n'') = parse_elements n' js in (x # xs, n''))"
| "parse_members n acc [] = (acc, n)"
| "parse_members n acc ((k, j) # ms) =
     (let (v, n') = parse_value n j in parse_members n' (set_prop acc k v) ms)"

definition JSON_parse :: "addr \<Rightarrow> json option \<Rightarrow> error + jsval \<times> addr" where
  "JSON_parse n text =
     (case text of None \<Rightarrow> Inl SyntaxError | Some j \<Rightarrow> Inr (parse_value n j))"

text \<open>
  \<^verbatim>\<open>
  static deepClone(x) {
      return JSON.parse(JSON.stringify(x));
  }
  \<close>
  The first argument is the next free address.
\<close>

definition deepClone :: "addr \<Rightarrow> jsval \<Rightarrow> error + jsval \<times> addr" where
  "deepClone n x = JSON_parse n (JSON_stringify x)"

text \<open>The addresses of the arrays and objects of a value, the value itself included.\<close>

fun addrs :: "jsval \<Rightarrow> addr set"
  and addrs_list :: "jsval list \<Rightarrow> addr set"
  and addrs_props :: "(string \<times> jsval) list \<Rightarrow> addr set"
where
  "addrs (Arr a xs) = insert a (addrs_list xs)"
| "addrs (Obj a kvs) = insert a (addrs_props kvs)"
| "addrs v = {}"
| "addrs_list [] = {}"
| "addrs_list (x # xs) = addrs x \<union> addrs_list xs"
| "addrs_props [] = {}"
| "addrs_props ((k, v) # kvs) = addrs v \<union> addrs_props kvs"

text \<open>A JSON-compatible value: null, a boolean, a number, a string, an array of such
  values, or an object with distinct keys and such values.\<close>

fun json_compatible :: "jsval \<Rightarrow> bool"
  and json_compatible_list :: "jsval list \<Rightarrow> bool"
  and json_compatible_props :: "(string \<times> jsval) list \<Rightarrow> bool"
where
  "json_compatible Undefined = False"
| "json_compatible (Arr a xs) = json_compatible_list xs"
| "json_compatible (Obj a kvs) = (distinct (map fst kvs) \<and> json_compatible_props kvs)"
| "json_compatible v = True"
| "json_compatible_list [] = True"
| "json_compatible_list (x # xs) = (json_compatible x \<and> json_compatible_list xs)"
| "json_compatible_props [] = True"
| "json_compatible_props ((k, v) # kvs) = (json_compatible v \<and> json_compatible_props kvs)"

text \<open>\<open>first_matches eq seen xs\<close>: the elements \<open>x\<close> of \<open>xs\<close> with \<open>eq x x\<close> and \<open>eq x y\<close> for no
  element \<open>y\<close> of \<open>seen\<close> or earlier in \<open>xs\<close>.\<close>

fun first_matches :: "(jsval \<Rightarrow> jsval \<Rightarrow> bool) \<Rightarrow> jsval list \<Rightarrow> jsval list \<Rightarrow> jsval list" where
  "first_matches eq seen [] = []"
| "first_matches eq seen (x # xs) =
     (if eq x x \<and> \<not> list_ex (eq x) seen then x # first_matches eq (seen @ [x]) xs
      else first_matches eq (seen @ [x]) xs)"

text \<open>
  The phrase with the spaces inserted and nothing capitalized: the conversion that applies
  to the token, with the two groups and a space between them as the replacement.
\<close>

definition insert_spaces :: "string \<Rightarrow> string" where
  "insert_spaces str =
     (if CHR ''_'' \<in> set str then replace_separated (CHR ''_'') dollar1_space_dollar2 str
      else if CHR ''-'' \<in> set str then replace_separated (CHR ''-'') dollar1_space_dollar2 str
      else replace_camel dollar1_space_dollar2 str)"

text \<open>
  The spaces that the conversion inserts, as a list of flags along the phrase
  \<open>insert_spaces str\<close>: a flag is set at the positions of the inserted spaces.  The
  functions follow the same scan as the replacements themselves: a match yields the
  first group, the inserted space and the second group.
\<close>

fun inserted_separated :: "char \<Rightarrow> string \<Rightarrow> bool list" where
  "inserted_separated sep (a # s # b # rest) =
     (if is_alnum a \<and> s = sep \<and> is_alnum b then [False, True, False] @ inserted_separated sep rest
      else False # inserted_separated sep (s # b # rest))"
| "inserted_separated sep str = map (\<lambda>c. False) str"

fun inserted_camel :: "string \<Rightarrow> bool list" where
  "inserted_camel (a # b # rest) =
     (if is_lower a \<and> is_upper b then [False, True, False] @ inserted_camel rest
      else False # inserted_camel (b # rest))"
| "inserted_camel str = map (\<lambda>c. False) str"

definition inserted_spaces :: "string \<Rightarrow> bool list" where
  "inserted_spaces str =
     (if CHR ''_'' \<in> set str then inserted_separated (CHR ''_'') str
      else if CHR ''-'' \<in> set str then inserted_separated (CHR ''-'') str
      else inserted_camel str)"

text \<open>\<open>capitalize_where (c, b)\<close>: the character \<open>c\<close>, upper-cased where the flag \<open>b\<close> is
  set.\<close>

definition capitalize_where :: "char \<times> bool \<Rightarrow> char" where
  "capitalize_where p = (if snd p then toUpperCase_char (fst p) else fst p)"


text \<open>
  Whether a conversion pattern has a match in a string: \<open>separated_match sep\<close> for
  \<^verbatim>\<open>/([a-zA-Z\d])SEP([a-zA-Z\d])/\<close>, \<open>camel_match\<close> for \<^verbatim>\<open>/([a-z])([A-Z])/\<close>, and
  \<open>pattern_occurs\<close> for the pattern of the conversion that applies to the token.
\<close>

fun separated_match :: "char \<Rightarrow> string \<Rightarrow> bool" where
  "separated_match sep (a # s # b # rest) =
     (is_alnum a \<and> s = sep \<and> is_alnum b \<or> separated_match sep (s # b # rest))"
| "separated_match sep str = False"

fun camel_match :: "string \<Rightarrow> bool" where
  "camel_match (a # b # rest) = (is_lower a \<and> is_upper b \<or> camel_match (b # rest))"
| "camel_match str = False"

definition pattern_occurs :: "string \<Rightarrow> bool" where
  "pattern_occurs str =
     (if CHR ''_'' \<in> set str then separated_match (CHR ''_'') str
      else if CHR ''-'' \<in> set str then separated_match (CHR ''-'') str
      else camel_match str)"


text \<open>\<open>ends_with t s\<close>: the string \<open>s\<close> ends with \<open>t\<close>.\<close>

definition ends_with :: "string \<Rightarrow> string \<Rightarrow> bool" where
  "ends_with t s = (length t \<le> length s \<and> drop (length s - length t) s = t)"

section \<open>Properties\<close>

subsection \<open>normalizeUrl\<close>

lemma replace_trailing_slash_snoc:
  "replace_trailing_slash (s @ [c]) = (if c = CHR ''/'' then s else s @ [c])"
  by (simp add: replace_trailing_slash_def)

lemma normalizeUrl_single:
  "normalizeUrl (Str u) Undefined = Inr (replace_trailing_slash u)"
  by (simp add: normalizeUrl_def)

lemma replace_trailing_slash_fixed:
  "replace_trailing_slash (replace_trailing_slash u) = replace_trailing_slash u
     \<longleftrightarrow> \<not> ends_with ''//'' u"
proof (cases u rule: rev_cases)
  case Nil
  then show ?thesis by (simp add: replace_trailing_slash_def ends_with_def)
next
  case (snoc v c)
  note u = snoc
  show ?thesis
  proof (cases v rule: rev_cases)
    case Nil
    with u show ?thesis by (simp add: replace_trailing_slash_def ends_with_def)
  next
    case (snoc w d)
    have e: "ends_with ''//'' u \<longleftrightarrow> d = CHR ''/'' \<and> c = CHR ''/''"
      using u snoc by (auto simp add: ends_with_def)
    show ?thesis
      unfolding e unfolding u snoc
      by (auto simp add: replace_trailing_slash_def butlast_append)
  qed
qed

text \<open>
  C2, as the code has it.  \<open>normalizeUrl\<close> removes one trailing slash; a string that
  ends in two slashes keeps one after the first call and loses it in the second.  So in
  the single-argument form normalizing twice gives the same as normalizing once exactly
  for the strings that do not end in \<^verbatim>\<open>//\<close>.  The two-argument example of the specification
  holds: \<^verbatim>\<open>normalizeUrl("https://api.example.com/", "/jobs/")\<close> is
  \<^verbatim>\<open>"https://api.example.com/jobs"\<close>.
\<close>

theorem normalizeUrl_idempotent_iff:
  "(\<exists>r. normalizeUrl (Str u) Undefined = Inr r \<and>
        (normalizeUrl (Str r) Undefined = normalizeUrl (Str u) Undefined
           \<longleftrightarrow> \<not> ends_with ''//'' u)) \<and>
   normalizeUrl (Str ''https://api.example.com/'') (Str ''/jobs/'')
     = Inr ''https://api.example.com/jobs''"
proof -
  have ex: "normalizeUrl (Str ''https://api.example.com/'') (Str ''/jobs/'')
              = Inr ''https://api.example.com/jobs''"
    by (simp add: normalizeUrl_def replace_trailing_slash_def)
  have "normalizeUrl (Str (replace_trailing_slash u)) Undefined
          = normalizeUrl (Str u) Undefined \<longleftrightarrow> \<not> ends_with ''//'' u"
    unfolding normalizeUrl_single using replace_trailing_slash_fixed [of u] by simp
  then show ?thesis using ex normalizeUrl_single [of u] by blast
qed

theorem normalizeUrl_idempotent_iff_witness:
  "normalizeUrl (Str ''https://api.example.com/'') Undefined = Inr ''https://api.example.com'' \<and>
   normalizeUrl (Str ''https://api.example.com'') Undefined = Inr ''https://api.example.com'' \<and>
   \<not> ends_with ''//'' ''https://api.example.com/''"
  using normalizeUrl_idempotent_iff [of "''https://api.example.com/''"]
  by (simp add: normalizeUrl_def replace_trailing_slash_def ends_with_def)

text \<open>Idempotence for every string fails at \<^verbatim>\<open>"https://api.example.com//"\<close>: the first call leaves
  \<^verbatim>\<open>"https://api.example.com/"\<close>, which the second call shortens again.\<close>

theorem normalizeUrl_idempotent_counterexample:
  "normalizeUrl (Str ''https://api.example.com//'') Undefined = Inr ''https://api.example.com/'' \<and>
   normalizeUrl (Str ''https://api.example.com/'') Undefined
     \<noteq> normalizeUrl (Str ''https://api.example.com//'') Undefined"
  by (simp add: normalizeUrl_def replace_trailing_slash_def)

subsection \<open>replacePlaceholders\<close>

lemma index_of_None: "index_of pat s = None \<Longrightarrow> \<not> occurs_at pat s j"
proof (induction s arbitrary: j)
  case Nil
  then show ?case by (auto simp: occurs_at_def split: if_splits)
next
  case (Cons c s)
  then show ?case
    by (cases j) (auto simp: occurs_at_def split: if_splits)
qed

lemma index_of_first:
  "occurs_at pat s n \<Longrightarrow> n + length pat \<le> length s \<Longrightarrow> \<forall>j<n. \<not> occurs_at pat s j \<Longrightarrow> index_of pat s = Some n"
proof (induction s arbitrary: n)
  case Nil
  then show ?case by (auto simp: occurs_at_def)
next
  case (Cons c s)
  show ?case
  proof (cases n)
    case 0
    with Cons.prems show ?thesis by (simp add: occurs_at_def)
  next
    case (Suc m)
    have a: "occurs_at pat s m" using Cons.prems(1) Suc by (simp add: occurs_at_def)
    have b: "m + length pat \<le> length s" using Cons.prems(2) Suc by simp
    have c: "\<forall>j<m. \<not> occurs_at pat s j"
    proof (intro allI impI)
      fix j assume "j < m"
      then have "\<not> occurs_at pat (c # s) (Suc j)" using Cons.prems(3) Suc by simp
      then show "\<not> occurs_at pat s j" by (simp add: occurs_at_def)
    qed
    have "\<not> occurs_at pat (c # s) 0" using Cons.prems(3) Suc by simp
    then have "take (length pat) (c # s) \<noteq> pat" by (simp add: occurs_at_def)
    then show ?thesis using Cons.IH [OF a b c] Suc by simp
  qed
qed

lemma get_substitution_no_dollar:
  "CHR ''$'' \<notin> set t \<Longrightarrow> get_substitution m p f t = t"
  by (induction m p f t rule: get_substitution.induct) auto

lemma index_of_Some: "index_of pat s = Some n \<Longrightarrow> occurs_at pat s n"
proof (induction s arbitrary: n)
  case Nil
  then show ?case by (auto simp: occurs_at_def split: if_splits)
next
  case (Cons c s)
  then show ?case by (auto simp: occurs_at_def split: if_splits)
qed

lemma string_replace_absent:
  assumes "\<forall>j. \<not> occurs_at pat s j"
  shows "string_replace s pat t = s"
proof -
  have "index_of pat s = None"
  proof (cases "index_of pat s")
    case None then show ?thesis .
  next
    case (Some n)
    then show ?thesis using index_of_Some assms by blast
  qed
  then show ?thesis by (simp add: string_replace_def)
qed

lemma string_replace_first:
  assumes "\<forall>j<length pre. \<not> occurs_at pat (pre @ pat @ post) j"
  shows "string_replace (pre @ pat @ post) pat t = pre @ get_substitution pat pre post t @ post"
proof -
  have "occurs_at pat (pre @ pat @ post) (length pre)" by (simp add: occurs_at_def)
  then have "index_of pat (pre @ pat @ post) = Some (length pre)"
    using assms by (intro index_of_first) auto
  then show ?thesis by (simp add: string_replace_def)
qed

lemma replacePlaceholders_Obj:
  "replacePlaceholders (Str m) (Obj a kvs) =
     (case replace_loop kvs m of Inl e \<Rightarrow> Inl e | Inr m' \<Rightarrow> Inr (Str m'))"
  by (simp add: replacePlaceholders_def)

lemma replacePlaceholders_unchanged:
  "\<not> is_string message \<or> \<not> isObject variables \<Longrightarrow> replacePlaceholders message variables = Inr message"
  by (cases message; cases variables) (simp_all add: replacePlaceholders_def)

lemma replace_loop_append:
  "replace_loop (kvs @ kvs') m =
     (case replace_loop kvs m of Inl e \<Rightarrow> Inl e | Inr m' \<Rightarrow> replace_loop kvs' m')"
  by (induction kvs m rule: replace_loop.induct) (auto split: sum.splits)

text \<open>
  What the loop does.  \<open>replacePlaceholders\<close> returns the message as it is when the
  message is not a string or the variables are not an object.  Otherwise it takes the
  properties in turn: a key whose placeholder \<^verbatim>\<open>{key}\<close> does not occur leaves the message
  alone; where it occurs, the first occurrence, and only that one, is replaced: the text
  before it and the text after it, later occurrences of the same placeholder included,
  are kept.  An array value is joined with \<^verbatim>\<open>"; "\<close>.  What is put in is the value as
  \<^verbatim>\<open>String.prototype.replace\<close> reads it, a template; it is the value itself when the
  value contains no dollar sign.
\<close>

theorem replacePlaceholders_first_occurrence:
  "(\<not> is_string message \<or> \<not> isObject variables \<longrightarrow>
      replacePlaceholders message variables = Inr message) \<and>
   replacePlaceholders (Str m) (Obj a []) = Inr (Str m) \<and>
   (replacement_text v = Inr repl \<longrightarrow> (\<forall>j. \<not> occurs_at (''{'' @ k @ ''}'') m j) \<longrightarrow>
      replacePlaceholders (Str m) (Obj a ((k, v) # kvs)) = replacePlaceholders (Str m) (Obj a kvs)) \<and>
   (replacement_text v = Inr repl \<longrightarrow>
    (\<forall>j<length pre. \<not> occurs_at (''{'' @ k @ ''}'') (pre @ (''{'' @ k @ ''}'') @ post) j) \<longrightarrow>
      replacePlaceholders (Str (pre @ (''{'' @ k @ ''}'') @ post)) (Obj a ((k, v) # kvs))
        = replacePlaceholders
            (Str (pre @ get_substitution (''{'' @ k @ ''}'') pre post repl @ post)) (Obj a kvs)) \<and>
   (CHR ''$'' \<notin> set repl \<longrightarrow> get_substitution (''{'' @ k @ ''}'') pre post repl = repl) \<and>
   replacement_text (Arr b xs) = join_with ''; '' xs \<and>
   replacePlaceholders (Str ''Error in {field}: {msg}'')
       (Obj a [(''field'', Str ''bands''), (''msg'', Str ''required'')])
     = Inr (Str ''Error in bands: required'')"
proof (intro conjI impI)
  assume "\<not> is_string message \<or> \<not> isObject variables"
  then show "replacePlaceholders message variables = Inr message"
    by (rule replacePlaceholders_unchanged)
next
  show "replacePlaceholders (Str m) (Obj a []) = Inr (Str m)"
    by (simp add: replacePlaceholders_Obj)
next
  assume "replacement_text v = Inr repl" "\<forall>j. \<not> occurs_at (''{'' @ k @ ''}'') m j"
  then show "replacePlaceholders (Str m) (Obj a ((k, v) # kvs)) = replacePlaceholders (Str m) (Obj a kvs)"
    using string_replace_absent [of "''{'' @ k @ ''}''" m repl]
    by (simp add: replacePlaceholders_Obj)
next
  assume "replacement_text v = Inr repl"
    "\<forall>j<length pre. \<not> occurs_at (''{'' @ k @ ''}'') (pre @ (''{'' @ k @ ''}'') @ post) j"
  then show "replacePlaceholders (Str (pre @ (''{'' @ k @ ''}'') @ post)) (Obj a ((k, v) # kvs))
        = replacePlaceholders
            (Str (pre @ get_substitution (''{'' @ k @ ''}'') pre post repl @ post)) (Obj a kvs)"
    using string_replace_first [of pre "''{'' @ k @ ''}''" post repl]
    by (simp add: replacePlaceholders_Obj)
next
  assume "CHR ''$'' \<notin> set repl"
  then show "get_substitution (''{'' @ k @ ''}'') pre post repl = repl"
    by (rule get_substitution_no_dollar)
next
  show "replacement_text (Arr b xs) = join_with ''; '' xs"
    by (simp add: replacement_text_def)
next
  show "replacePlaceholders (Str ''Error in {field}: {msg}'')
       (Obj a [(''field'', Str ''bands''), (''msg'', Str ''required'')])
     = Inr (Str ''Error in bands: required'')"
    by (simp add: replacePlaceholders_Obj replacement_text_def string_replace_def)
qed

theorem replacePlaceholders_first_occurrence_witness:
  "\<not> is_string (Num 5) \<and>
   replacePlaceholders (Num 5) (Obj 1 [(''x'', Str ''y'')]) = Inr (Num 5) \<and>
   replacement_text (Arr 2 [Str ''p'', Str ''q'']) = Inr ''p; q'' \<and>
   (\<forall>j. \<not> occurs_at ''{x}'' [] j) \<and>
   \<not> occurs_at ''{x}'' ''a {x} b {x}'' 0 \<and> \<not> occurs_at ''{x}'' ''a {x} b {x}'' 1 \<and>
   occurs_at ''{x}'' ''a {x} b {x}'' 2 \<and>
   CHR ''$'' \<notin> set ''p; q'' \<and>
   replacePlaceholders (Str ''a {x} b {x}'') (Obj 1 [(''x'', Arr 2 [Str ''p'', Str ''q''])])
     = Inr (Str ''a p; q b {x}'')"
  using replacePlaceholders_first_occurrence
    [where message = "Num 5" and variables = "Obj 1 [(''x'', Str ''y'')]" and m = "[]" and a = 1
       and v = "Arr 2 [Str ''p'', Str ''q'']" and repl = "''p; q''" and k = "''x''" and kvs = "[]"
       and pre = "''a ''" and post = "'' b {x}''" and b = 2 and xs = "[Str ''p'', Str ''q'']"]
  by (simp add: replacePlaceholders_def replacement_text_def occurs_at_def All_less_Suc)

text \<open>
  C7.  The value of a key is handed to \<^verbatim>\<open>String.prototype.replace\<close> as a replacement
  template, not as the text to insert.  With the value \<^verbatim>\<open>"$&"\<close>, which stands for the
  matched text, \<^verbatim>\<open>replacePlaceholders("cost {p}", {p: "$&"})\<close> puts the placeholder back
  and returns \<^verbatim>\<open>"cost {p}"\<close>, and with the value \<^verbatim>\<open>"$$5"\<close> it inserts \<^verbatim>\<open>"$5"\<close>: the first
  occurrence of the placeholder is not replaced by the value.  For values without a
  dollar sign the function does what is said of it: only the first occurrence is
  replaced (\<^verbatim>\<open>"{x} and {x}"\<close> with \<^verbatim>\<open>{x: "1"}\<close> gives \<^verbatim>\<open>"1 and {x}"\<close>), an array is joined
  with \<^verbatim>\<open>"; "\<close>, and the example of the specification evaluates to
  \<^verbatim>\<open>"Error in bands: required"\<close>.
\<close>

theorem replacePlaceholders_dollar_template:
  "replacePlaceholders (Str ''cost {p}'') (Obj 1 [(''p'', Str ''$&'')])
     = Inr (Str ''cost {p}'') \<and>
   replacePlaceholders (Str ''cost {p}'') (Obj 1 [(''p'', Str ''$$5'')])
     = Inr (Str ''cost $5'') \<and>
   replacePlaceholders (Str ''{x} and {x}'') (Obj 1 [(''x'', Str ''1'')])
     = Inr (Str ''1 and {x}'') \<and>
   replacePlaceholders (Str ''{x}'') (Obj 1 [(''x'', Arr 2 [Str ''a'', Str ''b''])])
     = Inr (Str ''a; b'') \<and>
   replacePlaceholders (Str ''Error in {field}: {msg}'')
       (Obj 1 [(''field'', Str ''bands''), (''msg'', Str ''required'')])
     = Inr (Str ''Error in bands: required'')"
  by (simp add: replacePlaceholders_Obj replacement_text_def string_replace_def)

text \<open>
  C10.  The loop substitutes into the message that the earlier keys have already changed:
  a list of properties acts as its first part followed by its second part on the result.
  So a value that contains the placeholder of a later key is substituted in turn:
  \<^verbatim>\<open>replacePlaceholders("{a}", {a: "{b}", b: "X"})\<close> is \<^verbatim>\<open>"X"\<close>, while with the keys in the
  other order the result is \<^verbatim>\<open>"{b}"\<close>.
\<close>

theorem replacePlaceholders_sequential:
  "replacePlaceholders (Str ''{a}'') (Obj a [(''a'', Str ''{b}''), (''b'', Str ''X'')])
     = Inr (Str ''X'') \<and>
   replacePlaceholders (Str ''{a}'') (Obj a [(''b'', Str ''X''), (''a'', Str ''{b}'')])
     = Inr (Str ''{b}'') \<and>
   replacePlaceholders (Str m) (Obj a (kvs @ kvs'))
     = (case replacePlaceholders (Str m) (Obj a kvs) of
          Inl e \<Rightarrow> Inl e
        | Inr m' \<Rightarrow> replacePlaceholders m' (Obj a kvs'))"
proof (intro conjI)
  show "replacePlaceholders (Str ''{a}'') (Obj a [(''a'', Str ''{b}''), (''b'', Str ''X'')])
     = Inr (Str ''X'')"
    by (simp add: replacePlaceholders_Obj replacement_text_def string_replace_def)
  show "replacePlaceholders (Str ''{a}'') (Obj a [(''b'', Str ''X''), (''a'', Str ''{b}'')])
     = Inr (Str ''{b}'')"
    by (simp add: replacePlaceholders_Obj replacement_text_def string_replace_def)
  show "replacePlaceholders (Str m) (Obj a (kvs @ kvs'))
     = (case replacePlaceholders (Str m) (Obj a kvs) of
          Inl e \<Rightarrow> Inl e
        | Inr m' \<Rightarrow> replacePlaceholders m' (Obj a kvs'))"
    by (simp add: replacePlaceholders_Obj replace_loop_append split: sum.splits)
qed

theorem replacePlaceholders_sequential_witness:
  "replacePlaceholders (Str ''{a}{b}'') (Obj 1 [(''a'', Str ''{b}'')]) = Inr (Str ''{b}{b}'') \<and>
   replacePlaceholders (Str ''{b}{b}'') (Obj 1 [(''b'', Str ''X'')]) = Inr (Str ''X{b}'') \<and>
   replacePlaceholders (Str ''{a}{b}'') (Obj 1 [(''a'', Str ''{b}''), (''b'', Str ''X'')])
     = Inr (Str ''X{b}'')"
  using replacePlaceholders_sequential
    [where m = "''{a}{b}''" and a = 1 and kvs = "[(''a'', Str ''{b}'')]"
       and kvs' = "[(''b'', Str ''X'')]"]
  by (simp add: replacePlaceholders_def replacement_text_def string_replace_def)

subsection \<open>prettifyString\<close>

lemma set_lower: "set lower_letters = {CHR ''a'', CHR ''b'', CHR ''c'', CHR ''d'', CHR ''e'', CHR ''f'', CHR ''g'',
  CHR ''h'', CHR ''i'', CHR ''j'', CHR ''k'', CHR ''l'', CHR ''m'', CHR ''n'', CHR ''o'', CHR ''p'', CHR ''q'',
  CHR ''r'', CHR ''s'', CHR ''t'', CHR ''u'', CHR ''v'', CHR ''w'', CHR ''x'', CHR ''y'', CHR ''z''}"
  by (simp add: lower_letters_def)

lemma toUpperCase_char_not_lower: "\<not> is_lower (toUpperCase_char c)"
proof (cases "is_lower c")
  case True
  then show ?thesis
    unfolding is_lower_def set_lower toUpperCase_char_def
    by (auto simp: lower_letters_def upper_letters_def)
next
  case False
  then have "map_of (zip lower_letters upper_letters) c = None"
    by (simp add: is_lower_def lower_letters_def upper_letters_def)
  then show ?thesis using False by (simp add: toUpperCase_char_def)
qed

lemma toUpperCase_char_fixed: "\<not> is_lower c \<Longrightarrow> toUpperCase_char c = c"
proof -
  assume "\<not> is_lower c"
  then have "map_of (zip lower_letters upper_letters) c = None"
    by (simp add: is_lower_def lower_letters_def upper_letters_def)
  then show ?thesis by (simp add: toUpperCase_char_def)
qed

lemma prettify_token_Str:
  "prettify_token (Str s) = Inr (Str (if 3 \<le> length s then convert_case replacer s else s))"
  by (simp add: prettify_token_def js_ge_def ToNumber_def)

lemma prettifyString_Str:
  "prettifyString (Str s) Undefined
     = Inr (if 3 \<le> length s then convert_case replacer s else s)"
  by (simp add: prettifyString_def prettify_token_Str)

lemma map_tokens_Str:
  "map_tokens (map Str ss)
     = Inr (map (\<lambda>s. Str (if 3 \<le> length s then convert_case replacer s else s)) ss)"
  by (induction ss) (simp_all add: prettify_token_Str)

lemma replace_separated_flags:
  "replace_separated sep replacer s
     = map capitalize_where
         (zip (replace_separated sep dollar1_space_dollar2 s) (False # inserted_separated sep s))"
  by (induction sep dollar1_space_dollar2 s rule: replace_separated.induct)
     (auto simp: replacer_def dollar1_space_dollar2_def toUpperCase_def capitalize_where_def)

lemma replace_camel_flags:
  "replace_camel replacer s
     = map capitalize_where
         (zip (replace_camel dollar1_space_dollar2 s) (False # inserted_camel s))"
  by (induction dollar1_space_dollar2 s rule: replace_camel.induct)
     (auto simp: replacer_def dollar1_space_dollar2_def toUpperCase_def capitalize_where_def)

lemma inserted_separated_length:
  "length (inserted_separated sep s) = length (replace_separated sep dollar1_space_dollar2 s)"
  by (induction sep dollar1_space_dollar2 s rule: replace_separated.induct)
     (auto simp: dollar1_space_dollar2_def)

lemma inserted_camel_length:
  "length (inserted_camel s) = length (replace_camel dollar1_space_dollar2 s)"
  by (induction dollar1_space_dollar2 s rule: replace_camel.induct)
     (auto simp: dollar1_space_dollar2_def)

lemma inserted_separated_space:
  "list_all (\<lambda>p. snd p \<longrightarrow> fst p = CHR '' '')
     (zip (replace_separated sep dollar1_space_dollar2 s) (inserted_separated sep s))"
  by (induction sep dollar1_space_dollar2 s rule: replace_separated.induct)
     (auto simp: dollar1_space_dollar2_def)

lemma inserted_camel_space:
  "list_all (\<lambda>p. snd p \<longrightarrow> fst p = CHR '' '')
     (zip (replace_camel dollar1_space_dollar2 s) (inserted_camel s))"
  by (induction dollar1_space_dollar2 s rule: replace_camel.induct)
     (auto simp: dollar1_space_dollar2_def)

lemma inserted_separated_restore:
  "map (\<lambda>p. if snd p then sep else fst p)
     (zip (replace_separated sep dollar1_space_dollar2 s) (inserted_separated sep s)) = s"
  by (induction sep dollar1_space_dollar2 s rule: replace_separated.induct)
     (auto simp: dollar1_space_dollar2_def)

lemma inserted_camel_restore:
  "map fst (filter (\<lambda>p. \<not> snd p)
     (zip (replace_camel dollar1_space_dollar2 s) (inserted_camel s))) = s"
  by (induction dollar1_space_dollar2 s rule: replace_camel.induct)
     (auto simp: dollar1_space_dollar2_def)

lemma capitalize_first_flag:
  "toUpperCase (take 1 (map capitalize_where (zip P (False # M))))
     @ drop 1 (map capitalize_where (zip P (False # M)))
   = map capitalize_where (zip P (True # M))"
  by (cases P) (simp_all add: toUpperCase_def capitalize_where_def)

lemma convert_case_flags:
  "convert_case replacer s
     = map capitalize_where (zip (insert_spaces s) (True # inserted_spaces s))"
  unfolding convert_case_def Let_def insert_spaces_def inserted_spaces_def
  by (simp add: replace_separated_flags replace_camel_flags capitalize_first_flag
           del: One_nat_def)

lemma inserted_spaces_length: "length (inserted_spaces s) = length (insert_spaces s)"
  by (simp add: inserted_spaces_def insert_spaces_def inserted_separated_length
        inserted_camel_length)

lemma inserted_spaces_space:
  "list_all (\<lambda>p. snd p \<longrightarrow> fst p = CHR '' '') (zip (insert_spaces s) (inserted_spaces s))"
  by (simp add: inserted_spaces_def insert_spaces_def inserted_separated_space
        inserted_camel_space)

lemma inserted_spaces_restore:
  "(if CHR ''_'' \<in> set s then
      map (\<lambda>p. if snd p then CHR ''_'' else fst p) (zip (insert_spaces s) (inserted_spaces s)) = s
    else if CHR ''-'' \<in> set s then
      map (\<lambda>p. if snd p then CHR ''-'' else fst p) (zip (insert_spaces s) (inserted_spaces s)) = s
    else map fst (filter (\<lambda>p. \<not> snd p) (zip (insert_spaces s) (inserted_spaces s))) = s)"
  by (simp add: inserted_spaces_def insert_spaces_def inserted_separated_restore
        inserted_camel_restore)

text \<open>
  C1, as the code has it.  The canonical variant treats every token alike.  A string
  token of fewer than three characters is returned as it is.  For a string token of
  three or more characters the result is the phrase with the spaces inserted, in which
  the first character and the character that follows each inserted space are
  upper-cased, and only these: every other character of the phrase, one that follows a
  space of the token itself included, stays as it is.  The flags mark inserted spaces
  only, and putting the separator back in their place (for camel case: taking them out)
  gives the token again.  The string tokens of an array are treated in the same way, one
  by one, and joined.  So \<^verbatim>\<open>prettifyString("collection_id")\<close> is \<^verbatim>\<open>"Collection Id"\<close> and
  \<^verbatim>\<open>prettifyString("spatialExtent")\<close> is \<^verbatim>\<open>"Spatial Extent"\<close>.
\<close>

theorem prettifyString_capitalizes_words:
  "(3 \<le> length s \<longrightarrow>
      prettifyString (Str s) Undefined
        = Inr (map capitalize_where (zip (insert_spaces s) (True # inserted_spaces s)))) \<and>
   (length s < 3 \<longrightarrow> prettifyString (Str s) Undefined = Inr s) \<and>
   length (inserted_spaces s) = length (insert_spaces s) \<and>
   list_all (\<lambda>p. snd p \<longrightarrow> fst p = CHR '' '') (zip (insert_spaces s) (inserted_spaces s)) \<and>
   (if CHR ''_'' \<in> set s then
      map (\<lambda>p. if snd p then CHR ''_'' else fst p) (zip (insert_spaces s) (inserted_spaces s)) = s
    else if CHR ''-'' \<in> set s then
      map (\<lambda>p. if snd p then CHR ''-'' else fst p) (zip (insert_spaces s) (inserted_spaces s)) = s
    else map fst (filter (\<lambda>p. \<not> snd p) (zip (insert_spaces s) (inserted_spaces s))) = s) \<and>
   prettifyString (Arr a (map Str ss)) Undefined
     = join_with ''; ''
         (map (\<lambda>s. Str (if 3 \<le> length s
                         then map capitalize_where
                                (zip (insert_spaces s) (True # inserted_spaces s))
                         else s)) ss) \<and>
   prettifyString (Str ''collection_id'') Undefined = Inr ''Collection Id'' \<and>
   prettifyString (Str ''spatialExtent'') Undefined = Inr ''Spatial Extent''"
proof (intro conjI impI)
  assume "3 \<le> length s"
  then show "prettifyString (Str s) Undefined
        = Inr (map capitalize_where (zip (insert_spaces s) (True # inserted_spaces s)))"
    by (simp add: prettifyString_Str convert_case_flags)
next
  assume "length s < 3"
  then show "prettifyString (Str s) Undefined = Inr s" by (simp add: prettifyString_Str)
next
  show "length (inserted_spaces s) = length (insert_spaces s)"
    by (rule inserted_spaces_length)
next
  show "list_all (\<lambda>p. snd p \<longrightarrow> fst p = CHR '' '') (zip (insert_spaces s) (inserted_spaces s))"
    by (rule inserted_spaces_space)
next
  show "(if CHR ''_'' \<in> set s then
      map (\<lambda>p. if snd p then CHR ''_'' else fst p) (zip (insert_spaces s) (inserted_spaces s)) = s
    else if CHR ''-'' \<in> set s then
      map (\<lambda>p. if snd p then CHR ''-'' else fst p) (zip (insert_spaces s) (inserted_spaces s)) = s
    else map fst (filter (\<lambda>p. \<not> snd p) (zip (insert_spaces s) (inserted_spaces s))) = s)"
    by (rule inserted_spaces_restore)
next
  show "prettifyString (Arr a (map Str ss)) Undefined
     = join_with ''; ''
         (map (\<lambda>s. Str (if 3 \<le> length s
                         then map capitalize_where
                                (zip (insert_spaces s) (True # inserted_spaces s))
                         else s)) ss)"
    using map_tokens_Str [of ss] unfolding convert_case_flags
    by (simp add: prettifyString_def)
next
  show "prettifyString (Str ''collection_id'') Undefined = Inr ''Collection Id''"
    by code_simp
next
  show "prettifyString (Str ''spatialExtent'') Undefined = Inr ''Spatial Extent''"
    by code_simp
qed

theorem prettifyString_capitalizes_words_witness:
  "3 \<le> length ''ab c_d'' \<and>
   insert_spaces ''ab c_d'' = ''ab c d'' \<and>
   inserted_spaces ''ab c_d'' = [False, False, False, False, True, False] \<and>
   prettifyString (Str ''ab c_d'') Undefined = Inr ''Ab c D'' \<and>
   length ''id'' < 3 \<and>
   prettifyString (Str ''id'') Undefined = Inr ''id'' \<and>
   prettifyString (Arr 1 [Str ''collection_id'', Str ''id'']) Undefined
     = Inr ''Collection Id; id''"
proof -
  have 1: "insert_spaces ''ab c_d'' = ''ab c d''" by code_simp
  have 2: "inserted_spaces ''ab c_d'' = [False, False, False, False, True, False]" by code_simp
  have 3: "map capitalize_where (zip ''ab c d'' [True, False, False, False, False, True, False])
             = ''Ab c D''" by code_simp
  have 4: "prettifyString (Arr 1 (map Str [''collection_id'', ''id''])) Undefined
             = Inr ''Collection Id; id''" by code_simp
  show ?thesis
    using prettifyString_capitalizes_words [of "''ab c_d''" 1 "[]"]
          prettifyString_capitalizes_words [of "''id''" 1 "[]"] 4
    unfolding 1 2 3 by simp
qed

text \<open>\<^verbatim>\<open>"Collection id"\<close> and \<^verbatim>\<open>"Spatial extent"\<close>, with only the first character
  capitalized, are not the results of the code.\<close>

theorem prettifyString_capitalizes_counterexample:
  "prettifyString (Str ''collection_id'') Undefined \<noteq> Inr ''Collection id'' \<and>
   prettifyString (Str ''spatialExtent'') Undefined \<noteq> Inr ''Spatial extent''"
  by code_simp

lemma replace_separated_no_match:
  "\<not> separated_match sep s \<Longrightarrow> replace_separated sep f s = s"
  by (induction sep f s rule: replace_separated.induct) auto

lemma replace_camel_no_match:
  "\<not> camel_match s \<Longrightarrow> replace_camel f s = s"
  by (induction f s rule: replace_camel.induct) auto

lemma replace_separated_match:
  "f = replacer \<Longrightarrow> sep \<noteq> CHR '' '' \<Longrightarrow> separated_match sep s \<Longrightarrow>
     drop 1 (replace_separated sep f s) \<noteq> drop 1 s"
  by (induction sep f s rule: replace_separated.induct) (auto simp: replacer_def)

lemma replace_camel_length:
  "\<forall>a b. length (f a b) = 3 \<Longrightarrow> length s \<le> length (replace_camel f s)"
  by (induction f s rule: replace_camel.induct) auto

lemma replace_camel_match:
  "\<forall>a b. length (f a b) = 3 \<Longrightarrow> camel_match s \<Longrightarrow> length s < length (replace_camel f s)"
proof (induction f s rule: replace_camel.induct)
  case (1 f a b rest)
  then show ?case
    using replace_camel_length [of f rest] by auto
qed auto

lemma replacer_length: "\<forall>a b. length (replacer a b) = 3"
  by (simp add: replacer_def toUpperCase_def)

lemma toUpperCase_char_changes: "is_lower c \<Longrightarrow> toUpperCase_char c \<noteq> c"
  using toUpperCase_char_not_lower [of c] by auto

lemma capitalize_first_fixed:
  "toUpperCase (take 1 x) @ drop 1 x = x \<longleftrightarrow> x = [] \<or> \<not> is_lower (hd x)"
  by (cases x)
     (auto simp: toUpperCase_def toUpperCase_char_fixed toUpperCase_char_changes)

lemma capitalize_first_drop:
  "drop 1 (toUpperCase (take 1 x) @ drop 1 x) = drop 1 x"
  by (cases x) (simp_all add: toUpperCase_def)

lemma convert_case_fixed_iff:
  "convert_case replacer s = s \<longleftrightarrow> \<not> pattern_occurs s \<and> (s = [] \<or> \<not> is_lower (hd s))"
proof (cases "pattern_occurs s")
  case False
  then have "(if CHR ''_'' \<in> set s then replace_separated (CHR ''_'') replacer s
              else if CHR ''-'' \<in> set s then replace_separated (CHR ''-'') replacer s
              else replace_camel replacer s) = s"
    by (auto simp: pattern_occurs_def replace_separated_no_match replace_camel_no_match
             split: if_splits)
  then show ?thesis
    using False capitalize_first_fixed [of s] by (simp add: convert_case_def Let_def del: One_nat_def)
next
  case True
  define x where "x = (if CHR ''_'' \<in> set s then replace_separated (CHR ''_'') replacer s
              else if CHR ''-'' \<in> set s then replace_separated (CHR ''-'') replacer s
              else replace_camel replacer s)"
  have c: "convert_case replacer s = toUpperCase (take 1 x) @ drop 1 x"
    unfolding x_def convert_case_def Let_def by (rule refl)
  have "drop 1 x \<noteq> drop 1 s \<or> length s < length x"
    using True replace_separated_match [of replacer _ s] replace_camel_match [OF replacer_length, of s]
    unfolding x_def pattern_occurs_def by (auto split: if_splits)
  moreover have "length (toUpperCase (take 1 x) @ drop 1 x) = length x"
    by (cases x) (simp_all add: toUpperCase_def)
  ultimately have "convert_case replacer s \<noteq> s"
    unfolding c using capitalize_first_drop [of x] by (metis less_irrefl)
  then show ?thesis using True by simp
qed


lemma lower_not_numeric_start:
  assumes "is_lower c"
  shows "c \<noteq> CHR ''+''" "c \<noteq> CHR ''-''" "c \<noteq> CHR ''.''" "c \<noteq> CHR ''I''"
    "\<not> is_digit c" "\<not> is_space c"
  using assms unfolding is_lower_def set_lower
  by (auto simp: is_digit_def decimal_digits_def is_space_def)

lemma decimal_literal_prefix_lower:
  "is_lower c \<Longrightarrow> decimal_literal_prefix (c # r) = None"
  using lower_not_numeric_start [of c]
  by (simp add: decimal_literal_prefix_def take_sign_def unsigned_decimal_def)

lemma isNumeric_first_char:
  assumes "isNumeric (Str s) = Inr True"
  shows "s = [] \<or> \<not> is_lower (hd s)"
proof (cases s)
  case Nil
  then show ?thesis by simp
next
  case (Cons c r)
  show ?thesis
  proof (rule ccontr)
    assume "\<not> (s = [] \<or> \<not> is_lower (hd s))"
    then have l: "is_lower c" using Cons by simp
    then have "trim_start s = c # r"
      using lower_not_numeric_start(6) [of c] Cons by (simp add: trim_start_def)
    then have "parseFloat (Str s) = Inr NaN"
      using decimal_literal_prefix_lower [OF l] by (simp add: parseFloat_def)
    then show False using assms by (simp add: isNumeric_def isNaN_def)
  qed
qed

lemma prettifyString_unchanged_iff:
  "prettifyString (Str s) Undefined = Inr s \<longleftrightarrow>
     length s < 3 \<or> \<not> pattern_occurs s \<and> (s = [] \<or> \<not> is_lower (hd s))"
  using convert_case_fixed_iff [of s] by (auto simp: prettifyString_Str)

lemma dropWhile_keeps: "c \<in> set s \<Longrightarrow> \<not> P c \<Longrightarrow> c \<in> set (dropWhile P s)"
  by (induction s) auto

lemma comma_not_space: "\<not> is_space (CHR '','')"
  by (simp add: is_space_def)

lemma comma_not_digit: "\<not> is_digit (CHR '','')"
  by (simp add: is_digit_def decimal_digits_def)

lemma trim_keeps_comma: "CHR '','' \<in> set s \<Longrightarrow> CHR '','' \<in> set (trim s)"
  unfolding trim_def set_rev
  by (intro dropWhile_keeps) (simp_all add: comma_not_space dropWhile_keeps)

lemma toLowerCase_char_comma: "toLowerCase_char (CHR '','') = CHR '',''"
  by (simp add: toLowerCase_char_def upper_letters_def lower_letters_def)

lemma digit_value_comma:
  "digit_value ''0123456789abcdef'' (CHR '','') = None"
  "digit_value ''01234567'' (CHR '','') = None"
  "digit_value ''01'' (CHR '','') = None"
  by (simp_all add: digit_value_def)

lemma list_all_comma:
  "CHR '','' \<in> set ds \<Longrightarrow> digit_value al (CHR '','') = None \<Longrightarrow>
     \<not> list_all (\<lambda>c. \<exists>y. digit_value al (toLowerCase_char c) = Some y) ds"
  by (auto simp: list_all_iff toLowerCase_char_comma intro!: bexI [of _ "CHR '',''"])

lemma non_decimal_literal_comma:
  assumes "CHR '','' \<in> set t"
  shows "non_decimal_literal t = None"
proof (cases t)
  case Nil
  then show ?thesis by (simp add: non_decimal_literal_def)
next
  case (Cons z r)
  show ?thesis
  proof (cases r)
    case Nil
    then show ?thesis using Cons by (simp add: non_decimal_literal_def)
  next
    case (Cons x ds)
    consider "z = CHR '',''" | "x = CHR '',''" | "CHR '','' \<in> set ds"
      using assms \<open>t = z # r\<close> Cons by auto
    then show ?thesis
    proof cases
      case 1
      then show ?thesis using \<open>t = z # r\<close> Cons by (simp add: non_decimal_literal_def)
    next
      case 2
      then show ?thesis using \<open>t = z # r\<close> Cons
        by (simp add: non_decimal_literal_def toLowerCase_char_comma)
    next
      case 3
      then show ?thesis using \<open>t = z # r\<close> Cons
        by (simp add: non_decimal_literal_def Let_def list_all_comma digit_value_comma)
    qed
  qed
qed

lemma dropWhile_nil_all: "dropWhile P s = [] \<Longrightarrow> \<forall>c\<in>set s. P c"
  by (induction s) (auto split: if_splits)

lemma exponent_part_comma:
  "exponent_part s = Some (x, []) \<Longrightarrow> CHR '','' \<notin> set s"
  using comma_not_digit
  by (auto simp: exponent_part_def take_sign_def Let_def
        split: list.splits if_splits dest!: dropWhile_nil_all)


lemma dropWhile_digit_comma:
  "CHR '','' \<in> set s \<Longrightarrow> CHR '','' \<in> set (dropWhile is_digit s)"
  by (rule dropWhile_keeps) (simp_all add: comma_not_digit)

lemma unsigned_decimal_comma:
  assumes "unsigned_decimal neg s = Some (x, [])"
  shows "CHR '','' \<notin> set s"
proof
  assume c: "CHR '','' \<in> set s"
  show False
  proof (cases "take 8 s = ''Infinity''")
    case True
    then have "drop 8 s = []" using assms by (simp add: unsigned_decimal_def)
    then have "s = ''Infinity''" using True by (metis append_Nil2 append_take_drop_id)
    then show False using c by simp
  next
    case False
    define r1 where "r1 = dropWhile is_digit s"
    have c1: "CHR '','' \<in> set r1"
      unfolding r1_def using c by (rule dropWhile_digit_comma)
    then obtain d r where r1: "r1 = d # r" by (cases r1) auto
    define r2 where "r2 = (if d = CHR ''.'' then dropWhile is_digit r else r1)"
    have c2: "CHR '','' \<in> set r2"
      using c1 r1 dropWhile_digit_comma [of r] by (auto simp: r2_def)
    have "exponent_part r2 = None \<or> (\<exists>y r3. exponent_part r2 = Some (y, r3))"
      by (cases "exponent_part r2") auto
    then have "(case exponent_part r2 of Some xr \<Rightarrow> snd xr | None \<Rightarrow> r2) = []"
      using assms False r1
      by (auto simp: unsigned_decimal_def Let_def r1_def [symmetric] r2_def
            split: if_splits option.splits prod.splits)
    then show False
      using c2 exponent_part_comma [of r2] by (auto split: option.splits)
  qed
qed

lemma decimal_literal_prefix_comma:
  assumes "decimal_literal_prefix t = Some (x, [])"
  shows "CHR '','' \<notin> set t"
proof
  assume c: "CHR '','' \<in> set t"
  obtain neg r where ts: "take_sign t = (neg, r)" by (cases "take_sign t")
  have "CHR '','' \<in> set r"
    using c ts by (auto simp: take_sign_def split: list.splits if_splits)
  moreover have "unsigned_decimal neg r = Some (x, [])"
    using assms ts by (simp add: decimal_literal_prefix_def)
  ultimately show False using unsigned_decimal_comma by blast
qed

lemma StringToNumber_comma:
  assumes "CHR '','' \<in> set s"
  shows "StringToNumber s = NaN"
proof -
  have t: "CHR '','' \<in> set (trim s)" using assms by (rule trim_keeps_comma)
  then have "trim s \<noteq> []" by auto
  moreover have "non_decimal_literal (trim s) = None"
    using t by (rule non_decimal_literal_comma)
  moreover have "\<And>x. decimal_literal_prefix (trim s) \<noteq> Some (x, [])"
    using t decimal_literal_prefix_comma by blast
  ultimately show ?thesis
    by (auto simp: StringToNumber_def Let_def split: option.splits prod.splits list.splits)
qed

lemma join_with_comma:
  "join_with sep (x # y # xs) = Inr s \<Longrightarrow> set sep \<subseteq> set s"
  by (auto split: sum.splits if_splits)

lemma isNumeric_Arr:
  assumes "isNumeric (Arr a xs) = Inr True"
  shows "length xs < 2"
proof (rule ccontr)
  assume "\<not> length xs < 2"
  then obtain x y r where xs: "xs = x # y # r"
    by (cases xs; cases "tl xs") auto
  show False
  proof (cases "join_with '','' xs")
    case (Inl e)
    then show False using assms by (simp add: isNumeric_def parseFloat_def)
  next
    case (Inr s)
    then have "CHR '','' \<in> set s" using join_with_comma [of "'',''" x y r s] xs by simp
    then have "StringToNumber s = NaN" by (rule StringToNumber_comma)
    then have "isFinite (Arr a xs) = Inr False"
      using Inr by (simp add: isFinite_def ToNumber_def)
    then show False using assms by (auto simp: isNumeric_def split: sum.splits if_splits)
  qed
qed

lemma prettify_token_Arr:
  "length xs < 3 \<Longrightarrow> prettify_token (Arr a xs) = Inr (Arr a xs)"
  by (simp add: prettify_token_def js_ge_def ToNumber_def)

lemma prettify_token_Num: "prettify_token (Num n) = Inr (Num n)"
  by (simp add: prettify_token_def js_ge_def ToNumber_def)

lemma isNumeric_kinds:
  "isNumeric Undefined = Inr False" "isNumeric Null = Inr False"
  "isNumeric (Bool b) = Inr False" "isNumeric (Obj a kvs) \<noteq> Inr True"
proof -
  have 1: "decimal_literal_prefix ''undefined'' = None"
    "decimal_literal_prefix ''null'' = None"
    "decimal_literal_prefix ''true'' = None"
    "decimal_literal_prefix ''false'' = None"
    "decimal_literal_prefix ''[object Object]'' = None"
    by (simp_all add: decimal_literal_prefix_def take_sign_def unsigned_decimal_def
          is_digit_def decimal_digits_def)
  show "isNumeric Undefined = Inr False" "isNumeric Null = Inr False"
    "isNumeric (Bool b) = Inr False" "isNumeric (Obj a kvs) \<noteq> Inr True"
    using 1 by (simp_all add: isNumeric_def parseFloat_def trim_start_def is_space_def isNaN_def)
qed

lemma prettify_token_numeric:
  assumes "isNumeric v = Inr True" "\<not> is_string v"
  shows "prettify_token v = Inr v"
proof (cases v)
  case (Arr a xs)
  then show ?thesis using assms isNumeric_Arr [of a xs] by (simp add: prettify_token_Arr)
qed (use assms isNumeric_kinds prettify_token_Num in auto)

text \<open>
  C5, as the code has it.  The single-token variant tests \<open>isNumeric\<close> first and returns a
  numeric token as it is.  The canonical variant has no such test.  It returns a numeric
  string token unchanged exactly when the token has fewer than three characters or the
  pattern of the conversion that applies to it has no match in it, be the token the
  argument itself or an element of the array.  A numeric token that is not a string, a
  number or an array of one element among the elements of the array, has no length of
  three or more, and the function applied to the elements returns it as it is.  So \<^verbatim>\<open>"42"\<close>,
  \<^verbatim>\<open>"-12"\<close>, \<^verbatim>\<open>"1e5"\<close>, \<^verbatim>\<open>"+1.5"\<close> and \<^verbatim>\<open>"0x10"\<close> are returned unchanged, while \<^verbatim>\<open>"1e-5"\<close>,
  where a hyphen stands between a letter and a digit, becomes \<^verbatim>\<open>"1e 5"\<close>.
\<close>

theorem prettifyString_numeric:
  "(isNumeric v = Inr True \<longrightarrow> prettifyString_single v = Inr v) \<and>
   (isNumeric (Str s) = Inr True \<longrightarrow>
      (prettifyString (Str s) Undefined = Inr s \<longleftrightarrow> length s < 3 \<or> \<not> pattern_occurs s)) \<and>
   (isNumeric (Str s) = Inr True \<longrightarrow>
      (prettify_token (Str s) = Inr (Str s) \<longleftrightarrow> length s < 3 \<or> \<not> pattern_occurs s)) \<and>
   (isNumeric v = Inr True \<longrightarrow> \<not> is_string v \<longrightarrow> prettify_token v = Inr v) \<and>
   isNumeric (Str ''1e-5'') = Inr True \<and>
   prettifyString (Str ''1e-5'') Undefined = Inr ''1e 5'' \<and>
   prettifyString (Str ''42'') Undefined = Inr ''42'' \<and>
   isNumeric (Str ''-12'') = Inr True \<and> prettifyString (Str ''-12'') Undefined = Inr ''-12'' \<and>
   isNumeric (Str ''1e5'') = Inr True \<and> prettifyString (Str ''1e5'') Undefined = Inr ''1e5'' \<and>
   isNumeric (Str ''+1.5'') = Inr True \<and> prettifyString (Str ''+1.5'') Undefined = Inr ''+1.5'' \<and>
   isNumeric (Str ''0x10'') = Inr True \<and> prettifyString (Str ''0x10'') Undefined = Inr ''0x10''"
proof (intro conjI impI)
  assume "isNumeric v = Inr True"
  then show "prettifyString_single v = Inr v" by (simp add: prettifyString_single_def)
next
  assume "isNumeric (Str s) = Inr True"
  then show "prettifyString (Str s) Undefined = Inr s \<longleftrightarrow> length s < 3 \<or> \<not> pattern_occurs s"
    using isNumeric_first_char [of s] prettifyString_unchanged_iff [of s] by blast
next
  assume "isNumeric (Str s) = Inr True"
  then show "prettify_token (Str s) = Inr (Str s) \<longleftrightarrow> length s < 3 \<or> \<not> pattern_occurs s"
    using isNumeric_first_char [of s] convert_case_fixed_iff [of s]
    by (auto simp: prettify_token_Str)
next
  assume "isNumeric v = Inr True" "\<not> is_string v"
  then show "prettify_token v = Inr v" by (rule prettify_token_numeric)
next
  show "isNumeric (Str ''1e-5'') = Inr True" by code_simp
next
  show "prettifyString (Str ''1e-5'') Undefined = Inr ''1e 5''" by code_simp
next
  show "prettifyString (Str ''42'') Undefined = Inr ''42''" by code_simp
next
  show "isNumeric (Str ''-12'') = Inr True" by code_simp
next
  show "prettifyString (Str ''-12'') Undefined = Inr ''-12''" by code_simp
next
  show "isNumeric (Str ''1e5'') = Inr True" by code_simp
next
  show "prettifyString (Str ''1e5'') Undefined = Inr ''1e5''" by code_simp
next
  show "isNumeric (Str ''+1.5'') = Inr True" by code_simp
next
  show "prettifyString (Str ''+1.5'') Undefined = Inr ''+1.5''" by code_simp
next
  show "isNumeric (Str ''0x10'') = Inr True" by code_simp
next
  show "prettifyString (Str ''0x10'') Undefined = Inr ''0x10''" by code_simp
qed

theorem prettifyString_numeric_witness:
  "isNumeric (Str ''1e-5'') = Inr True \<and>
   prettifyString_single (Str ''1e-5'') = Inr (Str ''1e-5'') \<and>
   pattern_occurs ''1e-5'' \<and>
   prettifyString (Str ''1e-5'') Undefined = Inr ''1e 5'' \<and>
   isNumeric (Str ''-12'') = Inr True \<and>
   prettifyString (Str ''-12'') Undefined = Inr ''-12'' \<and>
   prettify_token (Str ''-12'') = Inr (Str ''-12'') \<and>
   isNumeric (Str ''0x10'') = Inr True \<and>
   prettifyString (Str ''0x10'') Undefined = Inr ''0x10'' \<and>
   isNumeric (Num 42) = Inr True \<and> \<not> is_string (Num 42) \<and>
   prettifyString_single (Num 42) = Inr (Num 42) \<and>
   prettify_token (Num 42) = Inr (Num 42) \<and>
   isNumeric (Arr 1 [Str ''5'']) = Inr True \<and> \<not> is_string (Arr 1 [Str ''5'']) \<and>
   prettify_token (Arr 1 [Str ''5'']) = Inr (Arr 1 [Str ''5''])"
proof -
  have 1: "isNumeric (Str ''1e-5'') = Inr True" by code_simp
  have 2: "isNumeric (Str ''-12'') = Inr True" by code_simp
  have 3: "isNumeric (Str ''0x10'') = Inr True" by code_simp
  have 4: "pattern_occurs ''1e-5''" by code_simp
  have 5: "\<not> pattern_occurs ''-12''" by code_simp
  have 6: "\<not> pattern_occurs ''0x10''" by code_simp
  have 7: "prettifyString (Str ''1e-5'') Undefined = Inr ''1e 5''" by code_simp
  have 8: "isNumeric (Num 42) = Inr True" by code_simp
  have 9: "isNumeric (Arr 1 [Str ''5'']) = Inr True" by code_simp
  show ?thesis
    using prettifyString_numeric [of "Str ''1e-5''" "''-12''"]
          prettifyString_numeric [of "Num 42" "''0x10''"]
          prettifyString_numeric [of "Arr 1 [Str ''5'']" "''0x10''"]
          1 2 3 4 5 6 7 8 9
    by simp
qed

text \<open>\<^verbatim>\<open>"1e-5"\<close> is numeric, and the canonical variant does not return it unchanged.\<close>

theorem prettifyString_numeric_counterexample:
  "isNumeric (Str ''1e-5'') = Inr True \<and>
   prettifyString (Str ''1e-5'') Undefined \<noteq> Inr ''1e-5''"
  by code_simp

subsection \<open>equals\<close>

lemma equals_props_intro:
  "\<forall>(k, v')\<in>set new. \<exists>w. map_of K k = Some w \<and> equals v' w \<Longrightarrow> equals_props new K"
  by (induction new) auto

lemma equals_props_pointwise:
  assumes d: "distinct (map fst kvs)" and k: "map fst new = map fst kvs"
    and e: "list_all2 (\<lambda>p q. equals (snd p) (snd q)) new kvs"
  shows "equals_props new kvs"
proof (rule equals_props_intro, clarify)
  fix k v' assume "(k, v') \<in> set new"
  then obtain i where i: "i < length new" "new ! i = (k, v')" by (auto simp: in_set_conv_nth)
  have len: "length new = length kvs" using e by (rule list_all2_lengthD)
  have "fst (kvs ! i) = k"
    using k i len by (metis fst_conv nth_map)
  moreover have "equals v' (snd (kvs ! i))"
    using e i by (auto simp: list_all2_conv_all_nth)
  moreover have "kvs ! i \<in> set kvs" using i len by simp
  ultimately have "map_of kvs k = Some (snd (kvs ! i)) \<and> equals v' (snd (kvs ! i))"
    using d by (metis map_of_eq_Some_iff prod.collapse)
  then show "\<exists>w. map_of kvs k = Some w \<and> equals v' w" by blast
qed

lemma equals_refl:
  "json_compatible v \<Longrightarrow> equals v v"
  "json_compatible_list xs \<Longrightarrow> equals_list xs xs"
  "json_compatible_props kvs \<Longrightarrow> list_all2 (\<lambda>p q. equals (snd p) (snd q)) kvs kvs"
proof (induction v and xs and kvs rule: addrs_addrs_list_addrs_props.induct)
  case (2 a kvs)
  then have d: "distinct (map fst kvs)"
    and e: "list_all2 (\<lambda>p q. equals (snd p) (snd q)) kvs kvs" by simp_all
  show ?case using equals_props_pointwise [OF d refl e] by simp
qed simp_all

lemma json_compatible_list_nth:
  "json_compatible_list xs \<Longrightarrow> i < length xs \<Longrightarrow> json_compatible (xs ! i)"
proof (induction xs arbitrary: i)
  case Nil
  then show ?case by simp
next
  case (Cons x xs)
  then show ?case by (cases i) simp_all
qed

lemma nths_cong_below:
  "(\<And>i. i < length xs \<Longrightarrow> i \<in> A \<longleftrightarrow> i \<in> B) \<Longrightarrow> nths xs A = nths xs B"
proof -
  assume h: "\<And>i. i < length xs \<Longrightarrow> i \<in> A \<longleftrightarrow> i \<in> B"
  have "filter (\<lambda>p. snd p \<in> A) (zip xs [0 ..< length xs])
          = filter (\<lambda>p. snd p \<in> B) (zip xs [0 ..< length xs])"
    by (rule filter_cong [OF refl]) (auto simp: set_zip h)
  then show ?thesis by (simp add: nths_def)
qed

lemma first_matches_nths_refl:
  assumes "json_compatible_list xs"
  shows "nths xs {i. equals (xs ! i) (xs ! i) \<and> (\<forall>j<i. \<not> equals (xs ! i) (xs ! j))}
           = nths xs {i. \<forall>j<i. \<not> equals (xs ! i) (xs ! j)}"
  by (rule nths_cong_below)
     (use assms equals_refl(1) json_compatible_list_nth in auto)

subsection \<open>unique\<close>

lemma findIndex_ge: "- 1 \<le> findIndex p xs"
  by (induction xs) (auto simp: Let_def)

lemma findIndex_eq_iff:
  "findIndex p xs = int n \<longleftrightarrow> n < length xs \<and> p (xs ! n) \<and> (\<forall>j<n. \<not> p (xs ! j))"
proof (induction xs arbitrary: n)
  case Nil
  then show ?case by simp
next
  case (Cons x xs)
  show ?case
  proof (cases "p x")
    case True
    then show ?thesis by (cases n) auto
  next
    case False
    show ?thesis
    proof (cases n)
      case 0
      show ?thesis using False 0 by (auto simp: Let_def)
    next
      case (Suc m)
      have "(\<forall>j<Suc m. \<not> p ((x # xs) ! j)) \<longleftrightarrow> (\<forall>j<m. \<not> p (xs ! j))"
        using False by (auto simp: less_Suc_eq_0_disj)
      then show ?thesis using False Suc Cons.IH [of m] by (auto simp: Let_def)
    qed
  qed
qed

lemma findIndex_append_hit:
  "findIndex p (seen @ x # xs) = int (length seen) \<longleftrightarrow> p x \<and> \<not> list_ex p seen"
  unfolding findIndex_eq_iff
  by (auto simp: nth_append list_ex_iff all_set_conv_all_nth)

lemma filter_pos_first_matches:
  "map fst (filter (\<lambda>(s1, pos). findIndex (eq s1) (seen @ xs) = int (length seen + pos))
              (zip xs [0 ..< length xs]))
     = first_matches eq seen xs"
proof (induction xs arbitrary: seen)
  case Nil
  then show ?case by simp
next
  case (Cons x xs)
  have z: "zip (x # xs) [0 ..< length (x # xs)]
             = (x, 0) # map (\<lambda>(y, i). (y, Suc i)) (zip xs [0 ..< length xs])"
    by (simp add: upt_conv_Cons zip_map2 map_Suc_upt [symmetric] del: upt_Suc)
  have r: "map fst (filter (\<lambda>(s1, pos). findIndex (eq s1) (seen @ x # xs) = int (length seen + pos))
              (map (\<lambda>(y, i). (y, Suc i)) (zip xs [0 ..< length xs])))
            = first_matches eq (seen @ [x]) xs"
    using Cons.IH [of "seen @ [x]"]
    by (simp add: filter_map comp_def case_prod_unfold add.assoc add.left_commute)
  show ?case
    unfolding z using r findIndex_append_hit [of "eq x" seen x xs]
    by simp
qed

lemma unique_deep_first_matches:
  "filter_pos (\<lambda>s1 pos. findIndex (eq s1) xs = int pos) xs = first_matches eq [] xs"
  using filter_pos_first_matches [of eq "[]" xs] by (simp add: filter_pos_def)

lemma first_matches_idem:
  "set seen' \<subseteq> set seen \<Longrightarrow>
     first_matches eq seen' (first_matches eq seen xs) = first_matches eq seen xs"
proof (induction xs arbitrary: seen seen')
  case Nil
  then show ?case by simp
next
  case (Cons x xs)
  have s1: "set (seen' @ [x]) \<subseteq> set (seen @ [x])" using Cons.prems by auto
  have s2: "set seen' \<subseteq> set (seen @ [x])" using Cons.prems by auto
  show ?case
  proof (cases "eq x x \<and> \<not> list_ex (eq x) seen")
    case True
    then have "\<not> list_ex (eq x) seen'" using Cons.prems by (auto simp: list_ex_iff)
    then show ?thesis using True Cons.IH [OF s1] by simp
  next
    case False
    then show ?thesis using Cons.IH [OF s2] by auto
  qed
qed

lemma same_value_zero_refl: "same_value_zero x x"
  by (cases x) simp_all

lemma same_value_zero_sym: "same_value_zero x y \<Longrightarrow> same_value_zero y x"
  by (cases x; cases y) simp_all

lemma same_value_zero_trans:
  "same_value_zero x y \<Longrightarrow> same_value_zero y z \<Longrightarrow> same_value_zero x z"
  by (cases x; cases y; simp; cases z; simp)

lemma new_Set_first_matches_aux:
  "\<forall>z\<in>set seen. \<exists>y\<in>set K. same_value_zero y z \<Longrightarrow> set K \<subseteq> set seen \<Longrightarrow>
     foldl set_add K xs = K @ first_matches same_value_zero seen xs"
proof (induction xs arbitrary: K seen)
  case Nil
  then show ?case by simp
next
  case (Cons x xs)
  have iff: "list_ex (\<lambda>y. same_value_zero y x) K \<longleftrightarrow> list_ex (same_value_zero x) seen"
  proof
    assume "list_ex (\<lambda>y. same_value_zero y x) K"
    then obtain y where "y \<in> set K" "same_value_zero y x" by (auto simp: list_ex_iff)
    then show "list_ex (same_value_zero x) seen"
      using Cons.prems(2) same_value_zero_sym by (auto simp: list_ex_iff)
  next
    assume "list_ex (same_value_zero x) seen"
    then obtain z where z: "z \<in> set seen" "same_value_zero x z" by (auto simp: list_ex_iff)
    then obtain y where y: "y \<in> set K" "same_value_zero y z" using Cons.prems(1) by blast
    have "same_value_zero y x"
      using y(2) z(2) same_value_zero_sym same_value_zero_trans by blast
    then show "list_ex (\<lambda>y. same_value_zero y x) K" using y(1) by (auto simp: list_ex_iff)
  qed
  show ?case
  proof (cases "list_ex (\<lambda>y. same_value_zero y x) K")
    case True
    then obtain y where "y \<in> set K" "same_value_zero y x" by (auto simp: list_ex_iff)
    then have 1: "\<forall>z\<in>set (seen @ [x]). \<exists>y\<in>set K. same_value_zero y z"
      using Cons.prems(1) by auto
    have 2: "set K \<subseteq> set (seen @ [x])" using Cons.prems(2) by auto
    show ?thesis using True iff Cons.IH [OF 1 2] by (simp add: set_add_def)
  next
    case False
    have 1: "\<forall>z\<in>set (seen @ [x]). \<exists>y\<in>set (K @ [x]). same_value_zero y z"
      using Cons.prems(1) same_value_zero_refl by auto
    have 2: "set (K @ [x]) \<subseteq> set (seen @ [x])" using Cons.prems(2) by auto
    show ?thesis
      using False iff Cons.IH [OF 1 2] by (simp add: set_add_def same_value_zero_refl)
  qed
qed

lemma new_Set_first_matches: "new_Set xs = first_matches same_value_zero [] xs"
  using new_Set_first_matches_aux [of "[]" "[]" xs] by (simp add: new_Set_def)

lemma first_matches_nths:
  "first_matches eq [] xs
     = nths xs {i. eq (xs ! i) (xs ! i) \<and> (\<forall>j<i. \<not> eq (xs ! i) (xs ! j))}"
proof -
  have "filter (\<lambda>(s1, pos). findIndex (eq s1) xs = int pos) (zip xs [0 ..< length xs])
          = filter (\<lambda>p. snd p \<in> {i. eq (xs ! i) (xs ! i) \<and> (\<forall>j<i. \<not> eq (xs ! i) (xs ! j))})
              (zip xs [0 ..< length xs])"
  proof (rule filter_cong [OF refl])
    fix p assume "p \<in> set (zip xs [0 ..< length xs])"
    then obtain i where "i < length xs" "p = (xs ! i, i)"
      by (auto simp: set_zip)
    then show "(case p of (s1, pos) \<Rightarrow> findIndex (eq s1) xs = int pos)
                 = (snd p \<in> {i. eq (xs ! i) (xs ! i) \<and> (\<forall>j<i. \<not> eq (xs ! i) (xs ! j))})"
      by (simp add: findIndex_eq_iff)
  qed
  then show ?thesis
    unfolding unique_deep_first_matches [symmetric] filter_pos_def nths_def by simp
qed

text \<open>
  C9.  In both modes \<open>unique\<close> applied to its own result returns that result.  The result
  keeps the elements in the order of the input, each at its first occurrence: without
  \<open>useEquals\<close> it consists of the elements that are the same value as no earlier element;
  with \<open>useEquals\<close>, of the elements whose first match under \<open>equals\<close> is the element
  itself, which for JSON-compatible elements are those equal to no earlier element.
\<close>

theorem unique_idempotent_first_occurrence:
  "(\<exists>ys. unique (Arr a xs) useEquals = Inr ys \<and> unique (Arr b ys) useEquals = Inr ys) \<and>
   (\<not> ToBoolean useEquals \<longrightarrow>
      unique (Arr a xs) useEquals
        = Inr (nths xs {i. \<forall>j<i. \<not> same_value_zero (xs ! j) (xs ! i)})) \<and>
   (ToBoolean useEquals \<longrightarrow>
      unique (Arr a xs) useEquals
        = Inr (nths xs {i. equals (xs ! i) (xs ! i) \<and> (\<forall>j<i. \<not> equals (xs ! i) (xs ! j))})) \<and>
   (ToBoolean useEquals \<and> json_compatible_list xs \<longrightarrow>
      unique (Arr a xs) useEquals
        = Inr (nths xs {i. \<forall>j<i. \<not> equals (xs ! i) (xs ! j)}))"
proof (intro conjI impI)
  show "\<exists>ys. unique (Arr a xs) useEquals = Inr ys \<and> unique (Arr b ys) useEquals = Inr ys"
  proof (cases "ToBoolean useEquals")
    case True
    then show ?thesis
      using first_matches_idem [of "[]" "[]" equals xs]
      by (simp add: unique_def unique_deep_first_matches)
  next
    case False
    then show ?thesis
      using first_matches_idem [of "[]" "[]" same_value_zero xs]
      by (simp add: unique_def new_Set_first_matches)
  qed
next
  assume f: "\<not> ToBoolean useEquals"
  have "{i. same_value_zero (xs ! i) (xs ! i) \<and> (\<forall>j<i. \<not> same_value_zero (xs ! i) (xs ! j))}
          = {i. \<forall>j<i. \<not> same_value_zero (xs ! j) (xs ! i)}"
    using same_value_zero_refl same_value_zero_sym by blast
  then show "unique (Arr a xs) useEquals
     = Inr (nths xs {i. \<forall>j<i. \<not> same_value_zero (xs ! j) (xs ! i)})"
    using first_matches_nths [of same_value_zero xs] f
    by (simp add: unique_def new_Set_first_matches)
next
  assume "ToBoolean useEquals"
  then show "unique (Arr a xs) useEquals
     = Inr (nths xs {i. equals (xs ! i) (xs ! i) \<and> (\<forall>j<i. \<not> equals (xs ! i) (xs ! j))})"
    using first_matches_nths [of equals xs]
    by (simp add: unique_def unique_deep_first_matches)
next
  assume "ToBoolean useEquals \<and> json_compatible_list xs"
  then show "unique (Arr a xs) useEquals
     = Inr (nths xs {i. \<forall>j<i. \<not> equals (xs ! i) (xs ! j)})"
    using first_matches_nths [of equals xs] first_matches_nths_refl [of xs]
    by (simp add: unique_def unique_deep_first_matches)
qed

theorem unique_idempotent_first_occurrence_witness:
  "\<not> ToBoolean (Bool False) \<and> ToBoolean (Bool True) \<and>
   json_compatible_list [Num 1, Arr 2 [], Num 1, Arr 3 [], Arr 2 []] \<and>
   unique (Arr 1 [Num 1, Arr 2 [], Num 1, Arr 3 [], Arr 2 []]) (Bool False)
     = Inr [Num 1, Arr 2 [], Arr 3 []] \<and>
   unique (Arr 4 [Num 1, Arr 2 [], Arr 3 []]) (Bool False) = Inr [Num 1, Arr 2 [], Arr 3 []] \<and>
   unique (Arr 1 [Num 1, Arr 2 [], Num 1, Arr 3 [], Arr 2 []]) (Bool True)
     = Inr [Num 1, Arr 2 []] \<and>
   unique (Arr 4 [Num 1, Arr 2 []]) (Bool True) = Inr [Num 1, Arr 2 []]"
proof -
  have 1: "unique (Arr 1 [Num 1, Arr 2 [], Num 1, Arr 3 [], Arr 2 []]) (Bool False)
     = Inr [Num 1, Arr 2 [], Arr 3 []]" by code_simp
  have 2: "unique (Arr 1 [Num 1, Arr 2 [], Num 1, Arr 3 [], Arr 2 []]) (Bool True)
     = Inr [Num 1, Arr 2 []]" by code_simp
  show ?thesis
    using unique_idempotent_first_occurrence
            [of 1 "[Num 1, Arr 2 [], Num 1, Arr 3 [], Arr 2 []]" "Bool False" 4]
          unique_idempotent_first_occurrence
            [of 1 "[Num 1, Arr 2 [], Num 1, Arr 3 [], Arr 2 []]" "Bool True" 4]
    unfolding 1 2 by auto
qed

subsection \<open>Arguments of the wrong shape\<close>

text \<open>
  C3, as the code has it.  \<open>size\<close> returns \<open>0\<close> for every value that is neither an array
  nor an object, and \<open>friendlyLinks\<close> returns the empty list for every value that is not
  an array; neither fails.  \<open>unique\<close> does not test its argument.  Without \<open>useEquals\<close>
  it builds a \<^verbatim>\<open>Set\<close> from it: \<^verbatim>\<open>null\<close> and \<^verbatim>\<open>undefined\<close> give the empty list, a string gives
  its distinct characters, and a number, a boolean or an object raises a TypeError.  With
  \<open>useEquals\<close> every value that is not an array raises a TypeError.
\<close>

theorem wrong_shape_defaults:
  "(\<not> isArray v \<and> \<not> isObject v \<longrightarrow> size_js v = 0) \<and>
   (\<not> isArray v \<longrightarrow> friendlyLinks localeCompare v sortFlag ignoreRel = Inr []) \<and>
   unique Null Undefined = Inr [] \<and>
   unique Undefined Undefined = Inr [] \<and>
   unique (Str s) Undefined = Inr (new_Set (map (\<lambda>c. Str [c]) s)) \<and>
   unique (Num i) useEquals = Inl TypeError \<and>
   unique (Bool p) useEquals = Inl TypeError \<and>
   unique (Obj a kvs) useEquals = Inl TypeError \<and>
   (\<not> isArray v \<and> ToBoolean useEquals \<longrightarrow> unique v useEquals = Inl TypeError)"
proof (intro conjI impI)
  assume "\<not> isArray v \<and> \<not> isObject v"
  then show "size_js v = 0" by (cases v) simp_all
next
  assume "\<not> isArray v"
  then show "friendlyLinks localeCompare v sortFlag ignoreRel = Inr []"
    by (simp add: friendlyLinks_def Let_def)
next
  show "unique Null Undefined = Inr []" by (simp add: unique_def new_Set_def)
next
  show "unique Undefined Undefined = Inr []" by (simp add: unique_def new_Set_def)
next
  show "unique (Str s) Undefined = Inr (new_Set (map (\<lambda>c. Str [c]) s))"
    by (simp add: unique_def)
next
  show "unique (Num i) useEquals = Inl TypeError" by (simp add: unique_def)
next
  show "unique (Bool p) useEquals = Inl TypeError" by (simp add: unique_def)
next
  show "unique (Obj a kvs) useEquals = Inl TypeError" by (simp add: unique_def)
next
  assume "\<not> isArray v \<and> ToBoolean useEquals"
  then show "unique v useEquals = Inl TypeError" by (cases v) (simp_all add: unique_def)
qed

theorem wrong_shape_defaults_witness:
  "\<not> isArray (Num 5) \<and> \<not> isObject (Num 5) \<and> ToBoolean (Bool True) \<and>
   size_js (Num 5) = 0 \<and>
   friendlyLinks (\<lambda>a b. 0) (Num 5) Undefined Undefined = Inr [] \<and>
   unique (Num 5) (Bool True) = Inl TypeError \<and>
   unique (Str ''aab'') Undefined = Inr [Str ''a'', Str ''b'']"
  using wrong_shape_defaults
    [where v = "Num 5" and localeCompare = "\<lambda>a b. 0" and sortFlag = Undefined
       and ignoreRel = Undefined and s = "''aab''" and useEquals = "Bool True"]
  by (simp add: new_Set_def set_add_def)

text \<open>\<open>unique\<close> fails on a number, returns two elements for the string \<^verbatim>\<open>"aab"\<close>, and
  fails on \<^verbatim>\<open>null\<close> when \<open>useEquals\<close> is set.\<close>

theorem wrong_shape_defaults_counterexample:
  "unique (Num 5) Undefined = Inl TypeError \<and>
   unique (Str ''aab'') Undefined = Inr [Str ''a'', Str ''b''] \<and>
   unique Null (Bool True) = Inl TypeError"
  by (simp add: unique_def new_Set_def set_add_def)

lemma ToString_primitive:
  "\<not> isArray v \<Longrightarrow> \<not> isObject v \<Longrightarrow> \<exists>s. ToString v = Inr s"
  by (cases v) simp_all

lemma prettifyString_non_array:
  "\<not> isArray v \<Longrightarrow>
     prettifyString v sep
       = (case ToString v of Inl e \<Rightarrow> Inl e | Inr s \<Rightarrow> prettifyString (Str s) sep)"
  by (cases v) (simp_all add: prettifyString_def split: sum.splits)

lemma compareStringCaseInsensitive_ToString:
  "compareStringCaseInsensitive localeCompare a b
     = (case ToString a of
          Inl e \<Rightarrow> Inl e
        | Inr a' \<Rightarrow> (case ToString b of Inl e \<Rightarrow> Inl e | Inr b' \<Rightarrow> Inr (localeCompare a' b')))"
proof -
  have h: "(case x of Str s \<Rightarrow> Inr s | _ \<Rightarrow> ToString x) = ToString x" for x
    by (cases x) simp_all
  show ?thesis unfolding compareStringCaseInsensitive_def h by (rule refl)
qed

text \<open>
  C4, as the code has it.  \<open>compareStringCaseInsensitive\<close> compares the string forms of
  its arguments, and \<open>prettifyString\<close> treats an argument that is not an array as its
  string form; both complete whenever the conversion to a string does, which it does for
  every primitive value.  \<open>normalizeUrl\<close> converts nothing: a base URL that is not a
  string raises a TypeError, and a path that is not a string is ignored.
\<close>

theorem non_string_arguments:
  "compareStringCaseInsensitive localeCompare a b
     = (case ToString a of
          Inl e \<Rightarrow> Inl e
        | Inr a' \<Rightarrow> (case ToString b of Inl e \<Rightarrow> Inl e | Inr b' \<Rightarrow> Inr (localeCompare a' b'))) \<and>
   (\<not> isArray v \<longrightarrow>
      prettifyString v sep
        = (case ToString v of Inl e \<Rightarrow> Inl e | Inr s \<Rightarrow> prettifyString (Str s) sep)) \<and>
   (\<not> isArray v \<and> ToString v = Inr s \<longrightarrow> (\<exists>r. prettifyString v Undefined = Inr r)) \<and>
   (\<not> isArray v \<and> \<not> isObject v \<longrightarrow> (\<exists>s. ToString v = Inr s)) \<and>
   (\<not> is_string v \<longrightarrow> normalizeUrl v path = Inl TypeError) \<and>
   (\<not> is_string path \<longrightarrow> normalizeUrl (Str u) path = Inr (replace_trailing_slash u))"
proof (intro conjI impI)
  show "compareStringCaseInsensitive localeCompare a b
     = (case ToString a of
          Inl e \<Rightarrow> Inl e
        | Inr a' \<Rightarrow> (case ToString b of Inl e \<Rightarrow> Inl e | Inr b' \<Rightarrow> Inr (localeCompare a' b')))"
    by (rule compareStringCaseInsensitive_ToString)
next
  assume "\<not> isArray v"
  then show "prettifyString v sep
        = (case ToString v of Inl e \<Rightarrow> Inl e | Inr s \<Rightarrow> prettifyString (Str s) sep)"
    by (rule prettifyString_non_array)
next
  assume "\<not> isArray v \<and> ToString v = Inr s"
  then show "\<exists>r. prettifyString v Undefined = Inr r"
    by (simp add: prettifyString_non_array prettifyString_Str)
next
  assume "\<not> isArray v \<and> \<not> isObject v"
  then show "\<exists>s. ToString v = Inr s" by (simp add: ToString_primitive)
next
  assume "\<not> is_string v"
  then show "normalizeUrl v path = Inl TypeError"
    by (cases v) (simp_all add: normalizeUrl_def Let_def)
next
  assume "\<not> is_string path"
  then show "normalizeUrl (Str u) path = Inr (replace_trailing_slash u)"
    by (cases path) (simp_all add: normalizeUrl_def Let_def)
qed

theorem non_string_arguments_witness:
  "\<not> isArray (Num 42) \<and> \<not> isObject (Num 42) \<and> \<not> is_string (Num 42) \<and>
   ToString (Num 42) = Inr ''42'' \<and>
   compareStringCaseInsensitive (\<lambda>a b. int (length a) - int (length b)) (Num 42) Null = Inr (- 2) \<and>
   prettifyString (Bool True) Undefined = Inr ''True'' \<and>
   normalizeUrl (Num 42) Undefined = Inl TypeError \<and>
   normalizeUrl (Str ''a/'') (Num 42) = Inr ''a''"
proof -
  have 1: "ToString (Num 42) = Inr ''42''" by code_simp
  have 2: "prettifyString (Str ''true'') Undefined = Inr ''True''" by code_simp
  show ?thesis
    using non_string_arguments
        [where a = "Num 42" and b = Null and localeCompare = "\<lambda>a b. int (length a) - int (length b)"
           and v = "Num 42" and s = "''42''" and path = "Num 42" and u = "''a/''" and sep = Undefined]
      non_string_arguments
        [where a = "Num 42" and b = Null and localeCompare = "\<lambda>a b. int (length a) - int (length b)"
           and v = "Bool True" and s = "''true''" and path = "Undefined" and u = "''a/''" and sep = Undefined]
    unfolding 1 by (simp add: 2 replace_trailing_slash_def normalizeUrl_def)
qed

text \<open>\<^verbatim>\<open>normalizeUrl(42)\<close> raises a TypeError; and the conversion to a string, hence the
  comparison, raises one for an object whose own property \<^verbatim>\<open>toString\<close> hides the method.\<close>

theorem non_string_arguments_counterexample:
  "normalizeUrl (Num 42) Undefined = Inl TypeError \<and>
   compareStringCaseInsensitive (\<lambda>a b. 0) (Obj 1 [(''toString'', Num 1)]) (Str ''a'') = Inl TypeError"
  by (simp add: normalizeUrl_def compareStringCaseInsensitive_def)

subsection \<open>friendlyLinks\<close>

text \<open>A link is skipped exactly when its lower-cased \<^verbatim>\<open>rel\<close> is an element of the array
  \<open>ignoreRel\<close>.\<close>

lemma same_value_zero_Str: "same_value_zero e (Str s) \<longleftrightarrow> e = Str s"
  by (cases e) auto

lemma friendly_link_skipped:
  "friendly_link (Arr b es) link = Inr None \<longleftrightarrow>
     (\<exists>rel. get_prop (object_assign_empty link) ''rel'' = Str rel \<and>
            Str (toLowerCase rel) \<in> set es)"
  by (cases "get_prop (object_assign_empty link) ''rel''")
     (auto simp: friendly_link_def Let_def includes_js_def list_ex_iff same_value_zero_Str
           split: sum.splits bool.splits)

text \<open>
  C6.  \<open>friendlyLinks\<close> lower-cases the \<^verbatim>\<open>rel\<close> of the link and looks the result up in
  \<open>ignoreRel\<close> as it is.  With \<^verbatim>\<open>ignoreRel = ["Self"]\<close> the link
  \<^verbatim>\<open>{href: "https://x.org/a", rel: "Self"}\<close> is therefore kept (and given the title
  \<^verbatim>\<open>"Self"\<close>), although its \<^verbatim>\<open>rel\<close> is an entry of the list.  With the default list the
  example of the specification holds: the self link is dropped and the license link gets
  the title \<^verbatim>\<open>"License"\<close>.  Both for every comparison function, which is not called on
  a single link.
\<close>

theorem friendlyLinks_ignoreRel_upper_case:
  "friendlyLinks localeCompare
      (Arr 1 [Obj 2 [(''href'', Str ''https://x.org/a''), (''rel'', Str ''Self'')]])
      Undefined (Arr 3 [Str ''Self''])
     = Inr [[(''href'', Str ''https://x.org/a''), (''rel'', Str ''Self''),
             (''title'', Str ''Self'')]] \<and>
   friendlyLinks localeCompare
      (Arr 1 [Obj 2 [(''href'', Str ''https://x.org/a''), (''rel'', Str ''self'')],
              Obj 3 [(''href'', Str ''https://x.org/b''), (''rel'', Str ''license'')]])
      Undefined Undefined
     = Inr [[(''href'', Str ''https://x.org/b''), (''rel'', Str ''license''),
             (''title'', Str ''License'')]]"
  by code_simp

subsection \<open>deepClone\<close>

text \<open>Outside the JSON-compatible values: \<^verbatim>\<open>undefined\<close> has no clone, and inside an array
  it is cloned as \<^verbatim>\<open>null\<close>.\<close>

lemma deepClone_undefined: "deepClone n Undefined = Inl SyntaxError"
  by (simp add: deepClone_def JSON_parse_def)

lemma deepClone_undefined_element:
  "deepClone n (Arr a [Undefined]) = Inr (Arr n [Null], Suc n) \<and>
   \<not> equals (Arr n [Null]) (Arr a [Undefined])"
  by (simp add: deepClone_def JSON_parse_def)

lemma set_prop_fresh: "k \<notin> fst ` set acc \<Longrightarrow> set_prop acc k v = acc @ [(k, v)]"
  by (simp add: set_prop_def map_of_eq_None_iff)

lemma clone_correct:
  "json_compatible v \<Longrightarrow>
     \<exists>j. JSON_stringify v = Some j \<and>
         (\<forall>n. \<exists>v' n'. parse_value n j = (v', n') \<and> equals v' v \<and> n \<le> n' \<and>
                        addrs v' \<subseteq> {n ..< n'})"
  "json_compatible_list xs \<Longrightarrow>
     \<forall>n. \<exists>xs' n'. parse_elements n (stringify_elements xs) = (xs', n') \<and>
                     equals_list xs' xs \<and> n \<le> n' \<and> addrs_list xs' \<subseteq> {n ..< n'}"
  "json_compatible_props kvs \<Longrightarrow>
     \<forall>n acc. distinct (map fst kvs) \<and> fst ` set acc \<inter> fst ` set kvs = {} \<longrightarrow>
       (\<exists>new n'. parse_members n acc (stringify_properties kvs) = (acc @ new, n') \<and>
                  map fst new = map fst kvs \<and>
                  list_all2 (\<lambda>p q. equals (snd p) (snd q)) new kvs \<and>
                  n \<le> n' \<and> addrs_props new \<subseteq> {n ..< n'})"
proof (induction v and xs and kvs rule: addrs_addrs_list_addrs_props.induct)
  case (1 a xs)
  then have c: "json_compatible_list xs" by simp
  have st: "JSON_stringify (Arr a xs) = Some (JArr (stringify_elements xs))" by simp
  have "\<forall>n. \<exists>v' n'. parse_value n (JArr (stringify_elements xs)) = (v', n') \<and>
        equals v' (Arr a xs) \<and> n \<le> n' \<and> addrs v' \<subseteq> {n ..< n'}"
  proof (intro allI)
    fix n
    obtain xs' n' where p: "parse_elements (Suc n) (stringify_elements xs) = (xs', n')"
      and e: "equals_list xs' xs" and l: "Suc n \<le> n'" and s: "addrs_list xs' \<subseteq> {Suc n ..< n'}"
      using 1(1) [OF c] by blast
    have "parse_value n (JArr (stringify_elements xs)) = (Arr n xs', n')" using p by simp
    moreover have "equals (Arr n xs') (Arr a xs)" using e by simp
    moreover have "n \<le> n'" using l by simp
    moreover have "addrs (Arr n xs') \<subseteq> {n ..< n'}" using s l by auto
    ultimately show "\<exists>v' n'. parse_value n (JArr (stringify_elements xs)) = (v', n') \<and>
        equals v' (Arr a xs) \<and> n \<le> n' \<and> addrs v' \<subseteq> {n ..< n'}" by blast
  qed
  then show ?case using st by blast
next
  case (2 a kvs)
  then have c: "json_compatible_props kvs" and d: "distinct (map fst kvs)" by simp_all
  have st: "JSON_stringify (Obj a kvs) = Some (JObj (stringify_properties kvs))" by simp
  have "\<forall>n. \<exists>v' n'. parse_value n (JObj (stringify_properties kvs)) = (v', n') \<and>
        equals v' (Obj a kvs) \<and> n \<le> n' \<and> addrs v' \<subseteq> {n ..< n'}"
  proof (intro allI)
    fix n
    obtain new n' where p: "parse_members (Suc n) [] (stringify_properties kvs) = ([] @ new, n')"
      and k: "map fst new = map fst kvs"
      and e: "list_all2 (\<lambda>p q. equals (snd p) (snd q)) new kvs"
      and l: "Suc n \<le> n'" and s: "addrs_props new \<subseteq> {Suc n ..< n'}"
      using 2(1) [OF c] d by (metis Int_empty_left image_empty list.set(1))
    have "parse_value n (JObj (stringify_properties kvs)) = (Obj n new, n')" using p by simp
    moreover have "equals (Obj n new) (Obj a kvs)"
      using equals_props_pointwise [OF d k e] k by (simp, metis length_map)
    moreover have "n \<le> n'" using l by simp
    moreover have "addrs (Obj n new) \<subseteq> {n ..< n'}" using s l by auto
    ultimately show "\<exists>v' n'. parse_value n (JObj (stringify_properties kvs)) = (v', n') \<and>
        equals v' (Obj a kvs) \<and> n \<le> n' \<and> addrs v' \<subseteq> {n ..< n'}" by blast
  qed
  then show ?case using st by blast
next
  case (5 x xs)
  then have cx: "json_compatible x" and cxs: "json_compatible_list xs" by simp_all
  obtain j where j: "JSON_stringify x = Some j"
    and pj: "\<forall>n. \<exists>v' n'. parse_value n j = (v', n') \<and> equals v' x \<and> n \<le> n' \<and>
                addrs v' \<subseteq> {n ..< n'}"
    using 5(1) [OF cx] by blast
  show ?case
  proof (intro allI)
    fix n
    obtain x' n1 where 1: "parse_value n j = (x', n1)" "equals x' x" "n \<le> n1"
      "addrs x' \<subseteq> {n ..< n1}" using pj by blast
    obtain xs' n2 where 2: "parse_elements n1 (stringify_elements xs) = (xs', n2)"
      "equals_list xs' xs" "n1 \<le> n2" "addrs_list xs' \<subseteq> {n1 ..< n2}"
      using 5(2) [OF cxs] by blast
    have "parse_elements n (stringify_elements (x # xs)) = (x' # xs', n2)"
      using j 1(1) 2(1) by simp
    moreover have "equals_list (x' # xs') (x # xs)" using 1(2) 2(2) by simp
    moreover have "n \<le> n2" using 1(3) 2(3) by simp
    moreover have "addrs_list (x' # xs') \<subseteq> {n ..< n2}" using 1 2 by auto
    ultimately show "\<exists>xs' n'. parse_elements n (stringify_elements (x # xs)) = (xs', n') \<and>
        equals_list xs' (x # xs) \<and> n \<le> n' \<and> addrs_list xs' \<subseteq> {n ..< n'}" by blast
  qed
next
  case (7 k v kvs)
  then have cv: "json_compatible v" and ck: "json_compatible_props kvs" by simp_all
  obtain j where j: "JSON_stringify v = Some j"
    and pj: "\<forall>n. \<exists>v' n'. parse_value n j = (v', n') \<and> equals v' v \<and> n \<le> n' \<and>
                addrs v' \<subseteq> {n ..< n'}"
    using 7(1) [OF cv] by blast
  show ?case
  proof (intro allI impI)
    fix n :: addr and acc :: props
    assume a: "distinct (map fst ((k, v) # kvs)) \<and> fst ` set acc \<inter> fst ` set ((k, v) # kvs) = {}"
    then have d: "distinct (map fst kvs)" and kn: "k \<notin> fst ` set kvs"
      and ka: "k \<notin> fst ` set acc" and dis: "fst ` set acc \<inter> fst ` set kvs = {}"
      by auto
    obtain v' n1 where 1: "parse_value n j = (v', n1)" "equals v' v" "n \<le> n1"
      "addrs v' \<subseteq> {n ..< n1}" using pj by blast
    have dis': "fst ` set (acc @ [(k, v')]) \<inter> fst ` set kvs = {}" using dis kn by auto
    obtain new n2 where 2:
      "parse_members n1 (acc @ [(k, v')]) (stringify_properties kvs) = ((acc @ [(k, v')]) @ new, n2)"
      "map fst new = map fst kvs" "list_all2 (\<lambda>p q. equals (snd p) (snd q)) new kvs"
      "n1 \<le> n2" "addrs_props new \<subseteq> {n1 ..< n2}"
      using 7(2) [OF ck] d dis' by blast
    have "parse_members n acc (stringify_properties ((k, v) # kvs)) = (acc @ (k, v') # new, n2)"
      using j 1(1) 2(1) set_prop_fresh [OF ka] by simp
    moreover have "map fst ((k, v') # new) = map fst ((k, v) # kvs)" using 2(2) by simp
    moreover have "list_all2 (\<lambda>p q. equals (snd p) (snd q)) ((k, v') # new) ((k, v) # kvs)"
      using 1(2) 2(3) by simp
    moreover have "n \<le> n2" using 1(3) 2(4) by simp
    moreover have "addrs_props ((k, v') # new) \<subseteq> {n ..< n2}" using 1 2 by auto
    ultimately show "\<exists>new n'. parse_members n acc (stringify_properties ((k, v) # kvs)) = (acc @ new, n') \<and>
        map fst new = map fst ((k, v) # kvs) \<and>
        list_all2 (\<lambda>p q. equals (snd p) (snd q)) new ((k, v) # kvs) \<and>
        n \<le> n' \<and> addrs_props new \<subseteq> {n ..< n'}" by blast
  qed
qed simp_all

text \<open>
  C8.  Let \<open>v\<close> be a JSON-compatible value and \<open>n\<close> the next free address, so that every
  array and object of \<open>v\<close> has an address below \<open>n\<close>.  Then \<open>deepClone\<close> returns a value
  \<open>v'\<close> with \<open>equals v' v\<close>, and every array and object of \<open>v'\<close> has an address that was
  free before the call: the clone has no array or object in common with \<open>v\<close>.
\<close>

theorem deepClone_equals_fresh:
  "json_compatible v \<and> (\<forall>a\<in>addrs v. a < n) \<longrightarrow>
     (\<exists>v' n'. deepClone n v = Inr (v', n') \<and> equals v' v \<and>
              addrs v' \<subseteq> {n ..< n'} \<and> addrs v' \<inter> addrs v = {})"
proof
  assume a: "json_compatible v \<and> (\<forall>a\<in>addrs v. a < n)"
  then obtain j where j: "JSON_stringify v = Some j"
    and p: "\<forall>n. \<exists>v' n'. parse_value n j = (v', n') \<and> equals v' v \<and> n \<le> n' \<and>
               addrs v' \<subseteq> {n ..< n'}"
    using clone_correct(1) [of v] by blast
  obtain v' n' where c: "parse_value n j = (v', n')" "equals v' v" "addrs v' \<subseteq> {n ..< n'}"
    using p by blast
  have "deepClone n v = Inr (v', n')" using j c(1) by (simp add: deepClone_def JSON_parse_def)
  moreover have "addrs v' \<inter> addrs v = {}" using c(3) a by fastforce
  ultimately show "\<exists>v' n'. deepClone n v = Inr (v', n') \<and> equals v' v \<and>
              addrs v' \<subseteq> {n ..< n'} \<and> addrs v' \<inter> addrs v = {}"
    using c(2,3) by blast
qed

theorem deepClone_equals_fresh_witness:
  "json_compatible (Obj 1 [(''a'', Arr 2 [Num 1, Null]), (''b'', Str ''x'')]) \<and>
   addrs (Obj 1 [(''a'', Arr 2 [Num 1, Null]), (''b'', Str ''x'')]) = {1, 2} \<and>
   deepClone 10 (Obj 1 [(''a'', Arr 2 [Num 1, Null]), (''b'', Str ''x'')])
     = Inr (Obj 10 [(''a'', Arr 11 [Num 1, Null]), (''b'', Str ''x'')], 12) \<and>
   equals (Obj 10 [(''a'', Arr 11 [Num 1, Null]), (''b'', Str ''x'')])
          (Obj 1 [(''a'', Arr 2 [Num 1, Null]), (''b'', Str ''x'')]) \<and>
   addrs (Obj 10 [(''a'', Arr 11 [Num 1, Null]), (''b'', Str ''x'')])
     \<inter> addrs (Obj 1 [(''a'', Arr 2 [Num 1, Null]), (''b'', Str ''x'')]) = {}"
  using deepClone_equals_fresh [of "Obj 1 [(''a'', Arr 2 [Num 1, Null]), (''b'', Str ''x'')]" 10]
  by (simp add: deepClone_def JSON_parse_def set_prop_def)

end
